theory Spec2Isabelle
  imports Complex_Main "HOL-Library.Char_ord" "HOL-Library.List_Lexorder"
    "HOL-Library.Product_Lexorder" "HOL-Library.Sublist" "HOL-Library.AList"
begin

section \<open>Tiered search orchestrator (src/main.py, law\_search)\<close>

text \<open>
  Python floats are modelled as \<^typ>\<open>real\<close> (the scores that the document stores
  sort are floats with infinities and NaN, see there), Python strings as
  \<^typ>\<open>string\<close> (one \<^typ>\<open>char\<close> per code point, so the model covers texts whose
  code points are below 256).  An exception is a value carrying its message \<open>str(e)\<close>.
\<close>

datatype exn = Exn string

fun str_exn :: "exn \<Rightarrow> string" where
  "str_exn (Exn m) = m"

datatype SearchType = lexical | semantic | hybrid

text \<open>
  \<open>LawSearchResult\<close>.  The field \<open>matched_articles\<close> is \<open>None\<close> at every
  construction site of the source and is left out.
\<close>

record LawSearchResult =
  law_id :: string
  law_name_kr :: string
  law_abbr :: "string option"
  department :: "string option"
  law_type :: "string option"
  status :: "string option"
  enforce_date :: "string option"
  promulgate_date :: "string option"
  score :: "real option"
  snippet :: "string option"
  detail_link :: "string option"

text \<open>
  One summary record of the remote source, as \<open>_map_collector_result\<close> and
  \<open>_cache_search_results_to_db\<close> read it.  The source holds it as a \<open>dict\<close> with
  Korean keys; each field below is \<open>item.get(key)\<close> for one of these keys
  (\<open>None\<close> when the key is absent): law id, Korean law name, abbreviation,
  department, status code, enforcement date, promulgation date, detail link.
\<close>

record collector_item =
  item_law_id :: "string option"
  item_law_name_kr :: "string option"
  item_law_abbr :: "string option"
  item_department :: "string option"
  item_status :: "string option"
  item_enforce_date :: "string option"
  item_promulgate_date :: "string option"
  item_detail_link :: "string option"

text \<open>\<open>x or ""\<close> and \<open>x or None\<close> on an optional string: the empty string is falsy.\<close>

definition or_empty :: "string option \<Rightarrow> string" where
  "or_empty x = (case x of None \<Rightarrow> [] | Some s \<Rightarrow> s)"

definition or_None :: "string option \<Rightarrow> string option" where
  "or_None x = (case x of None \<Rightarrow> None | Some s \<Rightarrow> (if s = [] then None else Some s))"

definition map_collector_result :: "collector_item \<Rightarrow> LawSearchResult" where
  "map_collector_result item =
     \<lparr> law_id = or_empty (item_law_id item),
       law_name_kr = or_empty (item_law_name_kr item),
       law_abbr = or_None (item_law_abbr item),
       department = or_None (item_department item),
       law_type = None,
       status = or_None (item_status item),
       enforce_date = or_None (item_enforce_date item),
       promulgate_date = or_None (item_promulgate_date item),
       score = None,
       snippet = None,
       detail_link = or_None (item_detail_link item) \<rparr>"

record LawSearchRequest =
  req_query :: string
  req_search_type :: SearchType
  req_top_k :: int

text \<open>
  The parts of the note are kept as a list (the source joins them with \<open>"; "\<close>):
  the notice that only lexical search is served, \<open>source=...\<close>, and the notice that
  neither tier had data.
\<close>

datatype note_part = Lexical_only_notice | Source_note string | No_data_notice

record LawSearchMetadata =
  meta_search_type :: SearchType
  lexical_count :: nat
  semantic_count :: nat
  cache_hit :: bool
  meta_note :: "note_part list"

text \<open>\<open>LawSearchResponse\<close>; the elapsed wall-clock time is not modelled.\<close>

record LawSearchResponse =
  resp_results :: "LawSearchResult list"
  total_count :: nat
  search_metadata :: LawSearchMetadata

record HTTPException =
  status_code :: nat
  error :: string
  cause :: string

text \<open>
  The collaborators of one request.  Each field is the outcome of the call the
  handler makes: \<open>Inl e\<close> when it raises \<open>e\<close>.
\<close>

record search_env =
  db_search :: "exn + LawSearchResult list"
  collector_search_law :: "exn + collector_item list"
  cache_search_results_to_db :: "collector_item list \<Rightarrow> exn + unit"
  db_commit :: "exn + unit"
  db_rollback :: "exn + unit"

text \<open>The calls a request makes on its collaborators, in order.\<close>

datatype event =
    Db_search
  | Collector_search
  | Cache_to_db "collector_item list"
  | Commit
  | Rollback

text \<open>
  The best-effort write-back: \<open>_cache_search_results_to_db\<close>, then \<open>commit\<close>;
  any exception of either leads to \<open>rollback\<close>, whose own exception is dropped.
  Nothing is returned and nothing is raised: the value is the calls made.
\<close>

definition write_back :: "search_env \<Rightarrow> collector_item list \<Rightarrow> event list" where
  "write_back env raw =
     (case cache_search_results_to_db env raw of
        Inl e \<Rightarrow> [Cache_to_db raw, Rollback]
      | Inr u \<Rightarrow>
          (case db_commit env of
             Inl e \<Rightarrow> [Cache_to_db raw, Commit, Rollback]
           | Inr u \<Rightarrow> [Cache_to_db raw, Commit]))"

definition respond ::
  "LawSearchRequest \<Rightarrow> string \<Rightarrow> LawSearchResult list \<Rightarrow> string option \<Rightarrow> LawSearchResponse"
where
  "respond body law_api_key rs source =
     \<lparr> resp_results = rs,
       total_count = length rs,
       search_metadata =
         \<lparr> meta_search_type = req_search_type body,
           lexical_count = length rs,
           semantic_count = 0,
           cache_hit = (source = Some ''postgres''),
           meta_note =
             (if req_search_type body \<noteq> lexical then [Lexical_only_notice] else []) @
             (case source of None \<Rightarrow> [] | Some s \<Rightarrow> (if s = [] then [] else [Source_note s])) @
             (if law_api_key = [] \<and> source = None then [No_data_notice] else []) \<rparr> \<rparr>"

text \<open>
  \<open>law_search\<close>: the events and the outcome (\<open>Inl\<close> the \<open>HTTPException\<close> raised).
  \<open>law_api_key\<close> is \<open>settings.law_api_key\<close>, a string that is falsy when empty.
\<close>

definition law_search ::
  "search_env \<Rightarrow> string \<Rightarrow> LawSearchRequest \<Rightarrow> event list \<times> (HTTPException + LawSearchResponse)"
where
  "law_search env law_api_key body =
     (let (results0, source0, db_error) =
            (case db_search env of
               Inr rs \<Rightarrow> (rs, if rs \<noteq> [] then Some ''postgres'' else None, None)
             | Inl e \<Rightarrow> ([], None, Some e))
      in
        if results0 = [] \<and> law_api_key \<noteq> [] then
          (case collector_search_law env of
             Inl e \<Rightarrow>
               ([Db_search, Collector_search],
                Inl \<lparr> status_code = 500, error = ''InternalServerError'', cause = str_exn e \<rparr>)
           | Inr raw \<Rightarrow>
               ([Db_search, Collector_search] @ write_back env raw,
                Inr (respond body law_api_key (map map_collector_result raw) (Some ''law.go.kr''))))
        else
          (case db_error of
             Some e \<Rightarrow>
               if results0 = [] \<and> law_api_key = [] then
                 ([Db_search],
                  Inl \<lparr> status_code = 503, error = ''ServiceUnavailable'', cause = str_exn e \<rparr>)
               else ([Db_search], Inr (respond body law_api_key results0 source0))
           | None \<Rightarrow> ([Db_search], Inr (respond body law_api_key results0 source0))))"

fun is_cache_to_db :: "event \<Rightarrow> bool" where
  "is_cache_to_db (Cache_to_db raw) = True"
| "is_cache_to_db ev = False"

section \<open>Python helpers\<close>

text \<open>\<open>xs[:k]\<close> for an integer \<open>k\<close>: a negative \<open>k\<close> counts from the end.\<close>

definition slice_to :: "int \<Rightarrow> 'a list \<Rightarrow> 'a list" where
  "slice_to k xs = (if 0 \<le> k then take (nat k) xs else take (length xs - nat (- k)) xs)"

text \<open>
  \<open>xs.sort(key=f, reverse=True)\<close>: a stable sort into descending order of the key, that
  is, a stable ascending sort on the negated key.
\<close>

definition sort_desc :: "('a \<Rightarrow> real) \<Rightarrow> 'a list \<Rightarrow> 'a list" where
  "sort_desc f xs = sort_key (\<lambda>x. - f x) xs"

text \<open>
  \<open>str.isspace\<close>, which is also what \<open>str.strip()\<close>, \<open>str.split()\<close> and the regular
  expression \<open>\s\<close> use, on the code points below 256.
\<close>

definition is_space :: "char \<Rightarrow> bool" where
  "is_space c = (let n = (of_char c :: nat) in
     (9 \<le> n \<and> n \<le> 13) \<or> (28 \<le> n \<and> n \<le> 32) \<or> n = 133 \<or> n = 160)"

text \<open>\<open>str.lower\<close> on the code points below 256: A-Z and the capital letters of Latin-1.\<close>

definition is_upper :: "char \<Rightarrow> bool" where
  "is_upper c = (let n = (of_char c :: nat) in
     (65 \<le> n \<and> n \<le> 90) \<or> (192 \<le> n \<and> n \<le> 222 \<and> n \<noteq> 215))"

text \<open>
  Lower-casing adds 32 to the code point of an upper-case letter; bit 5 is clear in each
  of them, so this sets bit 5.
\<close>

fun lower_char :: "char \<Rightarrow> char" where
  "lower_char (Char b0 b1 b2 b3 b4 b5 b6 b7) =
     (if is_upper (Char b0 b1 b2 b3 b4 b5 b6 b7) then Char b0 b1 b2 b3 b4 True b6 b7
      else Char b0 b1 b2 b3 b4 b5 b6 b7)"

definition lower :: "string \<Rightarrow> string" where
  "lower s = map lower_char s"

definition strip :: "string \<Rightarrow> string" where
  "strip s = rev (dropWhile is_space (rev (dropWhile is_space s)))"

text \<open>
  The non-empty pieces of a string between runs of white space: \<open>s.split()\<close>, and
  \<open>[tok for tok in re.split(r"\s+", s) if tok]\<close>.
\<close>

fun split_acc :: "string \<Rightarrow> string \<Rightarrow> string list" where
  "split_acc cur [] = (if cur = [] then [] else [cur])"
| "split_acc cur (c # cs) =
     (if is_space c then (if cur = [] then split_acc [] cs else cur # split_acc [] cs)
      else split_acc (cur @ [c]) cs)"

definition split_ws :: "string \<Rightarrow> string list" where
  "split_ws s = split_acc [] s"

text \<open>\<open>hay.find(needle)\<close>: the first index, \<open>None\<close> for Python's \<open>-1\<close>; and \<open>needle in hay\<close>.\<close>

fun find_from :: "nat \<Rightarrow> string \<Rightarrow> string \<Rightarrow> nat option" where
  "find_from i needle [] = (if needle = [] then Some i else None)"
| "find_from i needle (c # cs) =
     (if prefix needle (c # cs) then Some i else find_from (Suc i) needle cs)"

definition str_find :: "string \<Rightarrow> string \<Rightarrow> nat option" where
  "str_find hay needle = find_from 0 needle hay"

definition str_in :: "string \<Rightarrow> string \<Rightarrow> bool" where
  "str_in needle hay = (str_find hay needle \<noteq> None)"

section \<open>Document store (src/core/vector\_store.py and its backends)\<close>

text \<open>
  A \<open>dict[str, Any]\<close> of metadata is an association list in insertion order with
  distinct keys; its values are modelled as strings.
\<close>

type_synonym py_dict = "(string \<times> string) list"

record VectorDocument =
  doc_id :: string
  embedding :: "real list"
  content :: string
  metadata :: py_dict
  payload :: "py_dict option"

text \<open>
  A score is a Python float: a number, an infinity, or NaN.
\<close>

datatype pyfloat = NaN | NegInf | Finite real | PosInf

record SearchResult =
  sr_id :: string
  sr_score :: pyfloat
  sr_content :: "string option"
  sr_metadata :: py_dict
  sr_payload :: "py_dict option"

text \<open>
  What numpy does besides returning a number: \<open>np.dot\<close> raises \<open>ValueError\<close> on
  one-dimensional arrays of different lengths, and a division by a zero divisor yields
  \<open>inf\<close> or \<open>nan\<close> under a warning, which the model keeps apart as a value of its own.
\<close>

datatype np_error = Shapes_not_aligned | Divide_by_zero

definition np_dot :: "real list \<Rightarrow> real list \<Rightarrow> np_error + real" where
  "np_dot arr1 arr2 =
     (if length arr1 \<noteq> length arr2 then Inl Shapes_not_aligned
      else Inr (sum_list (map2 (*) arr1 arr2)))"

definition linalg_norm :: "real list \<Rightarrow> real" where
  "linalg_norm arr = sqrt (sum_list (map (\<lambda>x. x * x) arr))"

definition np_divide :: "real \<Rightarrow> real \<Rightarrow> np_error + real" where
  "np_divide a b = (if b = 0 then Inl Divide_by_zero else Inr (a / b))"

text \<open>
  \<open>_cosine_similarity\<close>, the same text in the in-memory and the file-backed store, in
  exact arithmetic.
\<close>

definition cosine_similarity :: "real list \<Rightarrow> real list \<Rightarrow> np_error + real" where
  "cosine_similarity vec1 vec2 =
     (case np_dot vec1 vec2 of
        Inl e \<Rightarrow> Inl e
      | Inr dot_product \<Rightarrow>
          (let norm1 = linalg_norm vec1; norm2 = linalg_norm vec2
           in if norm1 = 0 \<or> norm2 = 0 then Inr 0
              else np_divide dot_product (norm1 * norm2)))"

text \<open>\<open>collection or self.config.collection_name\<close>: \<open>None\<close> and the empty string are falsy.\<close>

definition get_collection_name :: "string \<Rightarrow> string option \<Rightarrow> string" where
  "get_collection_name config_name collection =
     (case collection of None \<Rightarrow> config_name
      | Some c \<Rightarrow> (if c = [] then config_name else c))"

text \<open>
  The metadata filter: \<open>all(doc.metadata.get(k) == v for k, v in filters.items())\<close>,
  applied when \<open>filters\<close> is truthy (neither \<open>None\<close> nor empty).
\<close>

definition matches :: "VectorDocument \<Rightarrow> py_dict \<Rightarrow> bool" where
  "matches doc filters = list_all (\<lambda>(k, v). map_of (metadata doc) k = Some v) filters"

definition apply_filters :: "py_dict option \<Rightarrow> VectorDocument list \<Rightarrow> VectorDocument list" where
  "apply_filters filters documents =
     (case filters of None \<Rightarrow> documents
      | Some f \<Rightarrow> (if f = [] then documents else filter (\<lambda>doc. matches doc f) documents))"

subsection \<open>Scores as floats\<close>

text \<open>
  The order of the floats that are not NaN, by a key: the infinities lie below and above
  all numbers.  \<open>float_le a b\<close> is Python's \<open>a <= b\<close>, false when either is NaN.
\<close>

definition float_key :: "pyfloat \<Rightarrow> int \<times> real" where
  "float_key x =
     (case x of NegInf \<Rightarrow> (- 1, 0) | Finite r \<Rightarrow> (0, r) | PosInf \<Rightarrow> (1, 0) | NaN \<Rightarrow> (2, 0))"

definition float_le :: "pyfloat \<Rightarrow> pyfloat \<Rightarrow> bool" where
  "float_le a b = (a \<noteq> NaN \<and> b \<noteq> NaN \<and> float_key a \<le> float_key b)"

text \<open>
  The stores compute their scores in floating-point arithmetic, where a product or a sum
  of squares can overflow to an infinity and a quotient of infinities is NaN.  What the
  floating-point operations return is an input of the search functions: numpy's dot
  product (on arrays of the same length) and norm, and the product, quotient and sum of
  two floats.
\<close>

record float_ops =
  fl_dot :: "real list \<Rightarrow> real list \<Rightarrow> pyfloat"
  fl_norm :: "real list \<Rightarrow> pyfloat"
  fl_mul :: "pyfloat \<Rightarrow> pyfloat \<Rightarrow> pyfloat"
  fl_div :: "pyfloat \<Rightarrow> pyfloat \<Rightarrow> pyfloat"
  fl_add :: "pyfloat \<Rightarrow> pyfloat \<Rightarrow> pyfloat"

text \<open>\<open>_cosine_similarity\<close> as it is evaluated, on the operations \<open>ops\<close>.\<close>

definition cosine_similarity_float ::
  "float_ops \<Rightarrow> real list \<Rightarrow> real list \<Rightarrow> np_error + pyfloat" where
  "cosine_similarity_float ops vec1 vec2 =
     (if length vec1 \<noteq> length vec2 then Inl Shapes_not_aligned
      else
        (let dot_product = fl_dot ops vec1 vec2;
             norm1 = fl_norm ops vec1;
             norm2 = fl_norm ops vec2
         in if norm1 = Finite 0 \<or> norm2 = Finite 0 then Inr (Finite 0)
            else Inr (fl_div ops dot_product (fl_mul ops norm1 norm2))))"

text \<open>
  The operations where no intermediate value overflows or is rounded: exact arithmetic
  on numbers.  They serve to evaluate the searches on small inputs; what they give on an
  infinity or on NaN is not used.
\<close>

fun exact_mul :: "pyfloat \<Rightarrow> pyfloat \<Rightarrow> pyfloat" where
  "exact_mul (Finite a) (Finite b) = Finite (a * b)"
| "exact_mul a b = NaN"

fun exact_div :: "pyfloat \<Rightarrow> pyfloat \<Rightarrow> pyfloat" where
  "exact_div (Finite a) (Finite b) =
     (if b \<noteq> 0 then Finite (a / b)
      else if a = 0 then NaN else if 0 < a then PosInf else NegInf)"
| "exact_div a b = NaN"

fun exact_add :: "pyfloat \<Rightarrow> pyfloat \<Rightarrow> pyfloat" where
  "exact_add (Finite a) (Finite b) = Finite (a + b)"
| "exact_add a b = NaN"

definition exact_ops :: float_ops where
  "exact_ops =
     \<lparr> fl_dot = (\<lambda>arr1 arr2. Finite (sum_list (map2 (*) arr1 arr2))),
       fl_norm = (\<lambda>arr. Finite (linalg_norm arr)),
       fl_mul = exact_mul, fl_div = exact_div, fl_add = exact_add \<rparr>"

text \<open>
  \<open>xs.sort(key=f, reverse=True)\<close> on float keys.  When no key is NaN the keys are
  ordered and the sort is stable and descending.  When a key is NaN the comparisons are
  not an order, and the list is left as the library's algorithm happens to leave it:
  \<open>nan_sort\<close>, an input of the search functions.
\<close>

definition desc_key :: "pyfloat \<Rightarrow> int \<times> real" where
  "desc_key a = (- fst (float_key a), - snd (float_key a))"

definition sort_scores :: "('a list \<Rightarrow> 'a list) \<Rightarrow> ('a \<Rightarrow> pyfloat) \<Rightarrow> 'a list \<Rightarrow> 'a list" where
  "sort_scores nan_sort f xs =
     (if list_ex (\<lambda>x. f x = NaN) xs then nan_sort xs
      else sort_key (\<lambda>x. desc_key (f x)) xs)"

type_synonym scored = "(VectorDocument \<times> pyfloat) list"

text \<open>The scoring loop of \<open>search\<close>: the first exception ends it.\<close>

fun score_documents ::
  "float_ops \<Rightarrow> real list \<Rightarrow> VectorDocument list \<Rightarrow> np_error + scored" where
  "score_documents ops query_embedding [] = Inr []"
| "score_documents ops query_embedding (doc # docs) =
     (case cosine_similarity_float ops query_embedding (embedding doc) of
        Inl e \<Rightarrow> Inl e
      | Inr s \<Rightarrow>
          (case score_documents ops query_embedding docs of
             Inl e \<Rightarrow> Inl e
           | Inr rest \<Rightarrow> Inr ((doc, s) # rest)))"

definition to_search_result :: "VectorDocument \<times> pyfloat \<Rightarrow> SearchResult" where
  "to_search_result p =
     \<lparr> sr_id = doc_id (fst p), sr_score = snd p, sr_content = Some (content (fst p)),
       sr_metadata = metadata (fst p), sr_payload = payload (fst p) \<rparr>"

definition ranked :: "(scored \<Rightarrow> scored) \<Rightarrow> int \<Rightarrow> scored \<Rightarrow> SearchResult list" where
  "ranked nan_sort top_k results_with_scores =
     map to_search_result (slice_to top_k (sort_scores nan_sort snd results_with_scores))"

subsection \<open>The in-memory store (src/core/in\_memory\_store.py)\<close>

text \<open>
  \<open>_collections\<close> is a \<open>defaultdict(dict)\<close>: reading a missing key stores an empty
  dictionary under it.  Both levels are association lists in insertion order.
\<close>

type_synonym collections = "(string \<times> (string \<times> VectorDocument) list) list"

record InMemoryVectorStore =
  config_collection_name :: string
  collections :: collections
  store_initialized :: bool

definition InMemoryVectorStore_init :: "string \<Rightarrow> InMemoryVectorStore" where
  "InMemoryVectorStore_init name =
     \<lparr> config_collection_name = name, collections = [], store_initialized = False \<rparr>"

definition mem_initialize :: "InMemoryVectorStore \<Rightarrow> InMemoryVectorStore" where
  "mem_initialize s = s\<lparr>store_initialized := True\<rparr>"

definition mem_close :: "InMemoryVectorStore \<Rightarrow> InMemoryVectorStore" where
  "mem_close s = s\<lparr>collections := [], store_initialized := False\<rparr>"

definition getitem_default ::
  "collections \<Rightarrow> string \<Rightarrow> (string \<times> VectorDocument) list \<times> collections" where
  "getitem_default cs name =
     (case map_of cs name of None \<Rightarrow> ([], cs @ [(name, [])]) | Some d \<Rightarrow> (d, cs))"

fun add_loop :: "string \<Rightarrow> VectorDocument list \<Rightarrow> collections \<Rightarrow> collections" where
  "add_loop name [] cs = cs"
| "add_loop name (doc # docs) cs =
     add_loop name docs
       (AList.update name (AList.update (doc_id doc) doc (fst (getitem_default cs name)))
          (snd (getitem_default cs name)))"

definition mem_add_documents ::
  "InMemoryVectorStore \<Rightarrow> VectorDocument list \<Rightarrow> string option \<Rightarrow> string list \<times> InMemoryVectorStore"
where
  "mem_add_documents s documents collection =
     (map doc_id documents,
      s\<lparr>collections :=
          add_loop (get_collection_name (config_collection_name s) collection) documents
            (collections s)\<rparr>)"

fun delete_loop :: "string \<Rightarrow> string list \<Rightarrow> collections \<Rightarrow> nat \<times> collections" where
  "delete_loop name [] cs = (0, cs)"
| "delete_loop name (i # ids) cs =
     (if map_of (fst (getitem_default cs name)) i \<noteq> None then
        (case delete_loop name ids
                (AList.update name (AList.delete i (fst (getitem_default cs name)))
                   (snd (getitem_default cs name))) of
           (n, cs') \<Rightarrow> (Suc n, cs'))
      else delete_loop name ids (snd (getitem_default cs name)))"

definition mem_delete_documents ::
  "InMemoryVectorStore \<Rightarrow> string list \<Rightarrow> string option \<Rightarrow> nat \<times> InMemoryVectorStore"
where
  "mem_delete_documents s ids collection =
     (case delete_loop (get_collection_name (config_collection_name s) collection) ids
             (collections s) of
        (n, cs') \<Rightarrow> (n, s\<lparr>collections := cs'\<rparr>))"

text \<open>\<open>list(self._collections[coll_name].values())\<close>, the documents a search reads.\<close>

definition mem_documents :: "InMemoryVectorStore \<Rightarrow> string option \<Rightarrow> VectorDocument list" where
  "mem_documents s collection =
     map snd (fst (getitem_default (collections s)
                     (get_collection_name (config_collection_name s) collection)))"

definition mem_search ::
  "float_ops \<Rightarrow> (scored \<Rightarrow> scored) \<Rightarrow> InMemoryVectorStore \<Rightarrow> real list \<Rightarrow> int
     \<Rightarrow> string option \<Rightarrow> py_dict option
     \<Rightarrow> (np_error + SearchResult list) \<times> InMemoryVectorStore"
where
  "mem_search ops nan_sort s query_embedding top_k collection filters =
     (let coll_name = get_collection_name (config_collection_name s) collection;
          documents = map snd (fst (getitem_default (collections s) coll_name));
          s' = s\<lparr>collections := snd (getitem_default (collections s) coll_name)\<rparr>;
          filtered_docs = apply_filters filters documents
      in if filtered_docs = [] then (Inr [], s')
         else
           (case score_documents ops query_embedding filtered_docs of
              Inl e \<Rightarrow> (Inl e, s')
            | Inr results_with_scores \<Rightarrow>
                (Inr (ranked nan_sort top_k results_with_scores), s')))"

definition mem_hybrid_search ::
  "float_ops \<Rightarrow> (scored \<Rightarrow> scored) \<Rightarrow> InMemoryVectorStore \<Rightarrow> string \<Rightarrow> real list \<Rightarrow> int
     \<Rightarrow> string option \<Rightarrow> py_dict option \<Rightarrow> real \<Rightarrow> real
     \<Rightarrow> (np_error + SearchResult list) \<times> InMemoryVectorStore"
where
  "mem_hybrid_search ops nan_sort s query query_embedding top_k collection filters
       vector_weight lexical_weight =
     (case mem_search ops nan_sort s query_embedding (top_k * 2) collection filters of
        (Inl e, s') \<Rightarrow> (Inl e, s')
      | (Inr vector_results, s') \<Rightarrow> (Inr (slice_to top_k vector_results), s'))"

definition mem_count_documents ::
  "InMemoryVectorStore \<Rightarrow> string option \<Rightarrow> py_dict option \<Rightarrow> nat \<times> InMemoryVectorStore"
where
  "mem_count_documents s collection filters =
     (let coll_name = get_collection_name (config_collection_name s) collection;
          documents = map snd (fst (getitem_default (collections s) coll_name));
          s' = s\<lparr>collections := snd (getitem_default (collections s) coll_name)\<rparr>
      in (length (apply_filters filters documents), s'))"

definition mem_delete_collection :: "InMemoryVectorStore \<Rightarrow> string \<Rightarrow> InMemoryVectorStore" where
  "mem_delete_collection s collection =
     (if map_of (collections s) collection \<noteq> None
      then s\<lparr>collections := AList.delete collection (collections s)\<rparr> else s)"

definition mem_collection_exists :: "InMemoryVectorStore \<Rightarrow> string \<Rightarrow> bool" where
  "mem_collection_exists s collection = (map_of (collections s) collection \<noteq> None)"

subsection \<open>The file-backed store (src/core/file\_system\_store.py)\<close>

text \<open>
  The documents of a collection are what \<open>_get_all_documents\<close> read from its directory,
  an input of the search functions here.  \<open>json.dumps\<close> on the metadata is the standard
  library's and is a parameter.
\<close>

definition searchable_text :: "(py_dict \<Rightarrow> string) \<Rightarrow> VectorDocument \<Rightarrow> string" where
  "searchable_text json_dumps doc = lower (content doc @ '' '' @ json_dumps (metadata doc))"

text \<open>The score one document gets in the loop of \<open>_lexical_search\<close>.\<close>

definition lexical_doc_score :: "string \<Rightarrow> string \<Rightarrow> real" where
  "lexical_doc_score query_lower text =
     fold (\<lambda>word sc. if str_in word text
                      then sc + 0.2 / real (length (split_ws query_lower)) else sc)
       (split_ws query_lower)
       (if str_in query_lower text then 0.8 else 0)"

definition lexical_search ::
  "(py_dict \<Rightarrow> string) \<Rightarrow> string \<Rightarrow> VectorDocument list \<Rightarrow> (VectorDocument \<times> real) list"
where
  "lexical_search json_dumps query documents =
     sort_desc snd
       (filter (\<lambda>p. snd p > 0)
          (map (\<lambda>doc. (doc, lexical_doc_score (lower query) (searchable_text json_dumps doc)))
             documents))"

fun vector_scores_loop ::
  "float_ops \<Rightarrow> real list \<Rightarrow> VectorDocument list \<Rightarrow> (string \<rightharpoonup> pyfloat)
     \<Rightarrow> np_error + (string \<rightharpoonup> pyfloat)"
where
  "vector_scores_loop ops query_embedding [] m = Inr m"
| "vector_scores_loop ops query_embedding (doc # docs) m =
     (case cosine_similarity_float ops query_embedding (embedding doc) of
        Inl e \<Rightarrow> Inl e
      | Inr s \<Rightarrow> vector_scores_loop ops query_embedding docs (m(doc_id doc \<mapsto> s)))"

definition dict_get :: "(string \<rightharpoonup> pyfloat) \<Rightarrow> string \<Rightarrow> pyfloat \<Rightarrow> pyfloat" where
  "dict_get m k d = (case m k of None \<Rightarrow> d | Some v \<Rightarrow> v)"

text \<open>
  The list \<open>results_with_scores\<close> that \<open>hybrid_search\<close> builds from the filtered
  documents, before it sorts.
\<close>

definition fs_results_with_scores ::
  "float_ops \<Rightarrow> (py_dict \<Rightarrow> string) \<Rightarrow> VectorDocument list \<Rightarrow> string \<Rightarrow> real list
     \<Rightarrow> real \<Rightarrow> real \<Rightarrow> np_error + scored"
where
  "fs_results_with_scores ops json_dumps filtered_docs query query_embedding
       vector_weight lexical_weight =
     (case vector_scores_loop ops query_embedding filtered_docs Map.empty of
        Inl e \<Rightarrow> Inl e
      | Inr vector_scores \<Rightarrow>
          (let lexical_results = lexical_search json_dumps query filtered_docs;
               lexical_scores =
                 fold (\<lambda>p m. m(doc_id (fst p) \<mapsto> Finite (snd p))) lexical_results Map.empty;
               combined_scores =
                 fold (\<lambda>doc m. m(doc_id doc \<mapsto>
                         fl_add ops
                           (fl_mul ops (dict_get vector_scores (doc_id doc) (Finite 0))
                              (Finite vector_weight))
                           (fl_mul ops (dict_get lexical_scores (doc_id doc) (Finite 0))
                              (Finite lexical_weight))))
                   filtered_docs Map.empty
           in Inr (List.map_filter
                     (\<lambda>doc. map_option (Pair doc) (combined_scores (doc_id doc)))
                     filtered_docs)))"

definition fs_hybrid_search ::
  "float_ops \<Rightarrow> (scored \<Rightarrow> scored) \<Rightarrow> (py_dict \<Rightarrow> string) \<Rightarrow> VectorDocument list
     \<Rightarrow> string \<Rightarrow> real list \<Rightarrow> int \<Rightarrow> py_dict option \<Rightarrow> real \<Rightarrow> real
     \<Rightarrow> np_error + SearchResult list"
where
  "fs_hybrid_search ops nan_sort json_dumps documents query query_embedding top_k filters
       vector_weight lexical_weight =
     (let filtered_docs = apply_filters filters documents
      in if filtered_docs = [] then Inr []
         else
           (case fs_results_with_scores ops json_dumps filtered_docs query query_embedding
                   vector_weight lexical_weight of
              Inl e \<Rightarrow> Inl e
            | Inr results_with_scores \<Rightarrow> Inr (ranked nan_sort top_k results_with_scores)))"

section \<open>In-process cache (src/core/in\_memory\_cache.py)\<close>

text \<open>
  \<open>_store\<close> maps a key to the value and its expiry time.  Every reading of the clock
  (\<open>time.time()\<close>) is an input of the operation that makes it.
\<close>

datatype cache_error = Cache_not_initialized

record InMemoryCache =
  config_ttl :: int
  cache_store :: "string \<rightharpoonup> (string \<times> real)"
  cache_initialized :: bool

definition cleanup_expired :: "InMemoryCache \<Rightarrow> real \<Rightarrow> InMemoryCache" where
  "cleanup_expired c current_time =
     c\<lparr>cache_store :=
         (\<lambda>key. case cache_store c key of
                  None \<Rightarrow> None
                | Some (v, expiry_time) \<Rightarrow>
                    if expiry_time < current_time then None else Some (v, expiry_time))\<rparr>"

text \<open>\<open>get\<close>: the first clock reading is that of the sweep, the second that of the check.\<close>

definition cache_get ::
  "InMemoryCache \<Rightarrow> real \<Rightarrow> real \<Rightarrow> string \<Rightarrow> cache_error + (string option \<times> InMemoryCache)"
where
  "cache_get c sweep_time check_time key =
     (if \<not> cache_initialized c then Inl Cache_not_initialized
      else
        (let c1 = cleanup_expired c sweep_time
         in case cache_store c1 key of
              None \<Rightarrow> Inr (None, c1)
            | Some (v, expiry_time) \<Rightarrow>
                if check_time > expiry_time
                then Inr (None, c1\<lparr>cache_store := (cache_store c1)(key := None)\<rparr>)
                else Inr (Some v, c1)))"

text \<open>\<open>ttl or self.config.ttl\<close>: \<open>None\<close> and \<open>0\<close> are falsy.\<close>

definition effective_ttl :: "InMemoryCache \<Rightarrow> int option \<Rightarrow> int" where
  "effective_ttl c ttl = (case ttl of None \<Rightarrow> config_ttl c
                          | Some t \<Rightarrow> (if t = 0 then config_ttl c else t))"

definition cache_set ::
  "InMemoryCache \<Rightarrow> real \<Rightarrow> string \<Rightarrow> string \<Rightarrow> int option \<Rightarrow> cache_error + InMemoryCache"
where
  "cache_set c now key v ttl =
     (if \<not> cache_initialized c then Inl Cache_not_initialized
      else Inr (c\<lparr>cache_store :=
                   (cache_store c)(key \<mapsto> (v, now + real_of_int (effective_ttl c ttl)))\<rparr>))"

definition cache_delete :: "InMemoryCache \<Rightarrow> string \<Rightarrow> cache_error + InMemoryCache" where
  "cache_delete c key =
     (if \<not> cache_initialized c then Inl Cache_not_initialized
      else Inr (c\<lparr>cache_store := (cache_store c)(key := None)\<rparr>))"

definition cache_exists ::
  "InMemoryCache \<Rightarrow> real \<Rightarrow> real \<Rightarrow> string \<Rightarrow> cache_error + (bool \<times> InMemoryCache)"
where
  "cache_exists c sweep_time check_time key =
     (case cache_get c sweep_time check_time key of
        Inl e \<Rightarrow> Inl e
      | Inr (v, c') \<Rightarrow> Inr (v \<noteq> None, c'))"

section \<open>Scoring engine (src/main.py)\<close>

text \<open>\<open>_lexical_score\<close>.\<close>

definition lexical_score :: "string \<Rightarrow> string \<Rightarrow> real" where
  "lexical_score text query =
     (let q = lower (strip query)
      in if q = [] then 0
         else
           (let t = lower text;
                score0 = (if str_in q t then 0.8 else 0);
                tokens = split_ws q;
                score1 =
                  (if tokens \<noteq> []
                   then score0
                        + 0.2 * (real (length (filter (\<lambda>tok. str_in tok t) tokens))
                                 / real (length tokens))
                   else score0)
            in max 0 (min 1 score1)))"

text \<open>
  \<open>re.sub(re.escape(target), repl, s, flags=re.IGNORECASE)\<close>.  The pattern is the
  literal \<open>target\<close>, matched without regard to case; matches are taken from left to
  right and do not overlap.  An empty pattern matches at every position.
\<close>

definition ci_prefix :: "string \<Rightarrow> string \<Rightarrow> bool" where
  "ci_prefix target s = prefix (lower target) (lower s)"

fun sub_literal :: "string \<Rightarrow> string \<Rightarrow> string \<Rightarrow> string" where
  "sub_literal target repl [] = []"
| "sub_literal target repl (c # cs) =
     (if target \<noteq> [] \<and> ci_prefix target (c # cs)
      then repl @ sub_literal target repl (drop (length target - 1) cs)
      else c # sub_literal target repl cs)"

text \<open>
  The replacement is a template: a backslash in it starts an escape that the regular
  expression library interprets (a group reference, a control character, or an error).
  The outcome of \<open>re.sub\<close> on such a template is a parameter, \<open>re_template\<close>, of the
  functions below; a template without a backslash is inserted as it is.
\<close>

datatype sub_outcome = Substituted string | Re_error | Other_error exn

type_synonym re_template = "string \<Rightarrow> string \<Rightarrow> string \<Rightarrow> sub_outcome"

definition re_sub :: "re_template \<Rightarrow> string \<Rightarrow> string \<Rightarrow> string \<Rightarrow> sub_outcome" where
  "re_sub lib target repl s =
     (if CHR 0x5C \<in> set repl then lib target repl s
      else if target = [] then Substituted (repl @ concat (map (\<lambda>c. c # repl) s))
      else Substituted (sub_literal target repl s))"

text \<open>The fallback of \<open>_make_snippet\<close>: the first token of the query found in the text.\<close>

fun first_token :: "string \<Rightarrow> string list \<Rightarrow> (nat \<times> string) option" where
  "first_token lower_text [] = None"
| "first_token lower_text (tok # toks) =
     (case str_find lower_text (lower tok) of
        Some j \<Rightarrow> Some (j, tok)
      | None \<Rightarrow> first_token lower_text toks)"

text \<open>The index and the highlight target that \<open>_make_snippet\<close> settles on.\<close>

definition locate :: "string \<Rightarrow> string \<Rightarrow> (nat \<times> string) option" where
  "locate text q =
     (case str_find (lower text) (lower q) of
        Some idx \<Rightarrow> Some (idx, q)
      | None \<Rightarrow> first_token (lower text) (split_ws q))"

definition leading :: "nat \<Rightarrow> string \<Rightarrow> string" where
  "leading window text = strip (take window text @ (if length text > window then ''...'' else []))"

text \<open>
  \<open>_make_snippet\<close>.  No caller passes \<open>window\<close>, whose default is 120; it is a natural
  number here.  \<open>Inl\<close> is an exception other than \<open>re.error\<close> leaving \<open>re.sub\<close>.
\<close>

definition make_snippet :: "re_template \<Rightarrow> string \<Rightarrow> string \<Rightarrow> nat \<Rightarrow> exn + string" where
  "make_snippet lib text query window =
     (let q = strip query
      in if q = [] then Inr (leading window text)
         else
           (case locate text q of
              None \<Rightarrow> Inr (leading window text)
            | Some (idx, highlight_target) \<Rightarrow>
                (let start = idx - window div 2;
                     stop = min (length text) (idx + length highlight_target + window div 2);
                     snip = take (stop - start) (drop start text);
                     pre = (if start > 0 then ''...'' else []);
                     suf = (if stop < length text then ''...'' else [])
                 in case re_sub lib highlight_target
                           (''<em>'' @ highlight_target @ ''</em>'') snip of
                      Substituted s \<Rightarrow> Inr (strip (pre @ s @ suf))
                    | Re_error \<Rightarrow> Inr (strip (pre @ snip @ suf))
                    | Other_error e \<Rightarrow> Inl e)))"

section \<open>Multi-query aggregation (src/main.py, src/pipeline/collectors/law\_collector.py)\<close>

text \<open>\<open>s.split(",")\<close>, and \<open>_split_query_list\<close> (the same text as \<open>to_query_list\<close>).\<close>

fun split_on :: "char \<Rightarrow> string \<Rightarrow> string list" where
  "split_on sep [] = [[]]"
| "split_on sep (c # cs) =
     (if c = sep then [] # split_on sep cs
      else (case split_on sep cs of [] \<Rightarrow> [[c]] | p # ps \<Rightarrow> (c # p) # ps))"

definition split_query_list :: "string \<Rightarrow> string list" where
  "split_query_list query = filter (\<lambda>p. p \<noteq> []) (map strip (split_on CHR '','' query))"

text \<open>A row of the table \<open>laws\<close>, with the columns the search reads.\<close>

record Law =
  row_law_id :: string
  row_law_name_kr :: string
  row_law_abbr :: "string option"
  row_department :: "string option"
  row_law_type :: "string option"
  row_status :: "string option"
  row_enforce_date :: "string option"
  row_promulgate_date :: "string option"
  row_detail_link :: "string option"

fun join_space :: "string list \<Rightarrow> string" where
  "join_space [] = []"
| "join_space [p] = p"
| "join_space (p # ps) = p @ '' '' @ join_space ps"

definition searchable :: "Law \<Rightarrow> string" where
  "searchable law =
     strip (join_space (filter (\<lambda>p. p \<noteq> [])
       [row_law_name_kr law, or_empty (row_law_abbr law), or_empty (row_department law),
        row_law_id law]))"

definition law_row_to_search_result :: "re_template \<Rightarrow> Law \<Rightarrow> string \<Rightarrow> exn + LawSearchResult"
where
  "law_row_to_search_result lib law query =
     (let sc = lexical_score (searchable law) query;
          result = (\<lambda>snip.
            \<lparr> law_id = row_law_id law, law_name_kr = row_law_name_kr law,
              law_abbr = row_law_abbr law, department = row_department law,
              law_type = row_law_type law, status = row_status law,
              enforce_date = row_enforce_date law, promulgate_date = row_promulgate_date law,
              score = Some sc, snippet = snip, detail_link = row_detail_link law \<rparr>)
      in if sc > 0
         then (case make_snippet lib (searchable law) query 120 of
                 Inl e \<Rightarrow> Inl e
               | Inr s \<Rightarrow> Inr (result (Some s)))
         else Inr (result None))"

text \<open>\<open>r.score or 0.0\<close>, and the sort key \<open>(-(r.score or 0.0), r.law_name_kr)\<close>.\<close>

definition score_or_zero :: "LawSearchResult \<Rightarrow> real" where
  "score_or_zero r = (case score r of None \<Rightarrow> 0 | Some s \<Rightarrow> s)"

definition rank_key :: "LawSearchResult \<Rightarrow> real \<times> string" where
  "rank_key r = (- score_or_zero r, law_name_kr r)"

text \<open>The scoring loop over the rows of one sub-query: rows that score 0 are skipped.\<close>

fun score_rows :: "re_template \<Rightarrow> string \<Rightarrow> Law list \<Rightarrow> exn + LawSearchResult list" where
  "score_rows lib q [] = Inr []"
| "score_rows lib q (law # rows) =
     (case law_row_to_search_result lib law q of
        Inl e \<Rightarrow> Inl e
      | Inr r \<Rightarrow>
          (case score_rows lib q rows of
             Inl e \<Rightarrow> Inl e
           | Inr scored \<Rightarrow> Inr (if score_or_zero r \<le> 0 then scored else r # scored)))"

definition per_query_of :: "int \<Rightarrow> string list \<Rightarrow> int" where
  "per_query_of top_k query_list = max 1 (top_k div int (length query_list))"

definition candidate_limit :: "int \<Rightarrow> int \<Rightarrow> int" where
  "candidate_limit per_query top_k = min (max (per_query * 30) (top_k * 5)) 300"

text \<open>
  What one sub-query contributes: \<open>scored[:per_query]\<close> after the sort.  \<open>db_execute q n\<close>
  is the outcome of the \<open>SELECT\<close> built for the sub-query \<open>q\<close> (and the filters of the
  request) with \<open>LIMIT n\<close>.
\<close>

definition sub_query_results ::
  "re_template \<Rightarrow> (string \<Rightarrow> int \<Rightarrow> exn + Law list) \<Rightarrow> int \<Rightarrow> int \<Rightarrow> string
     \<Rightarrow> exn + LawSearchResult list"
where
  "sub_query_results lib db_execute per_query top_k q =
     (case db_execute q (candidate_limit per_query top_k) of
        Inl e \<Rightarrow> Inl e
      | Inr rows \<Rightarrow>
          (case score_rows lib q rows of
             Inl e \<Rightarrow> Inl e
           | Inr scored \<Rightarrow> Inr (slice_to per_query (sort_key rank_key scored))))"

text \<open>\<open>by_id\<close> is a dictionary in insertion order; a result replaces a lower-scored one.\<close>

definition merge_result ::
  "LawSearchResult \<Rightarrow> (string \<times> LawSearchResult) list \<Rightarrow> (string \<times> LawSearchResult) list"
where
  "merge_result r by_id =
     (case map_of by_id (law_id r) of
        None \<Rightarrow> AList.update (law_id r) r by_id
      | Some prev \<Rightarrow>
          (if score_or_zero r > score_or_zero prev then AList.update (law_id r) r by_id
           else by_id))"

fun search_loop ::
  "re_template \<Rightarrow> (string \<Rightarrow> int \<Rightarrow> exn + Law list) \<Rightarrow> int \<Rightarrow> int \<Rightarrow> string list
     \<Rightarrow> (string \<times> LawSearchResult) list \<Rightarrow> exn + (string \<times> LawSearchResult) list"
where
  "search_loop lib db_execute per_query top_k [] by_id = Inr by_id"
| "search_loop lib db_execute per_query top_k (q # qs) by_id =
     (case sub_query_results lib db_execute per_query top_k q of
        Inl e \<Rightarrow> Inl e
      | Inr chunk \<Rightarrow>
          search_loop lib db_execute per_query top_k qs (fold merge_result chunk by_id))"

text \<open>\<open>_db_search_laws\<close>.\<close>

definition db_search_laws ::
  "re_template \<Rightarrow> (string \<Rightarrow> int \<Rightarrow> exn + Law list) \<Rightarrow> string \<Rightarrow> int
     \<Rightarrow> exn + LawSearchResult list"
where
  "db_search_laws lib db_execute query top_k =
     (let query_list = split_query_list query
      in if query_list = [] then Inr []
         else
           (case search_loop lib db_execute (per_query_of top_k query_list) top_k query_list [] of
              Inl e \<Rightarrow> Inl e
            | Inr by_id \<Rightarrow> Inr (slice_to top_k (sort_key rank_key (map snd by_id)))))"

text \<open>
  \<open>search_law\<close> of the collector: the per-term results are gathered (a term whose fetch
  raised is skipped), each record is tagged with its term, and the concatenation is cut
  to \<open>top_k\<close>.
\<close>

definition search_law ::
  "(string \<Rightarrow> int \<Rightarrow> exn + collector_item list) \<Rightarrow> string \<Rightarrow> int
     \<Rightarrow> (string \<times> collector_item) list"
where
  "search_law fetch_law_for_query query top_k =
     (let query_list = split_query_list query
      in if query_list = [] then []
         else
           slice_to top_k
             (concat (map (\<lambda>q. case fetch_law_for_query q (per_query_of top_k query_list) of
                                  Inl e \<Rightarrow> []
                                | Inr result \<Rightarrow> map (Pair q) result)
                        query_list)))"

section \<open>Properties of the orchestrator\<close>

text \<open>
  C1. Whole-document search with no secondary source configured (empty law API key):
  when the primary search raises, the request fails with status 503,
  ServiceUnavailable; when the primary search returns no rows without raising, the
  request succeeds with an empty result list.
\<close>

theorem law_search_without_secondary:
  "snd (law_search (env\<lparr>db_search := Inl e\<rparr>) [] body) =
     Inl \<lparr> status_code = 503, error = ''ServiceUnavailable'', cause = str_exn e \<rparr>
   \<and> snd (law_search (env\<lparr>db_search := Inr []\<rparr>) [] body) = Inr (respond body [] [] None)
   \<and> resp_results (respond body [] [] None) = []
   \<and> total_count (respond body [] [] None) = 0"
  by (simp add: law_search_def respond_def)

lemma law_search_secondary:
  assumes "db_search env = Inr [] \<or> db_search env = Inl e"
    and "law_api_key \<noteq> []"
    and "collector_search_law env = Inr raw"
  shows "law_search env law_api_key body =
           ([Db_search, Collector_search] @ write_back env raw,
            Inr (respond body law_api_key (map map_collector_result raw) (Some ''law.go.kr'')))"
  using assms unfolding law_search_def by (elim disjE) simp_all

lemma write_back_calls: "filter is_cache_to_db (write_back env raw) = [Cache_to_db raw]"
  unfolding write_back_def by (simp split: sum.split)

lemma map_collector_result_fields:
  "list_all2
     (\<lambda>item r.
        law_id r = or_empty (item_law_id item)
        \<and> law_name_kr r = or_empty (item_law_name_kr item)
        \<and> law_abbr r = or_None (item_law_abbr item)
        \<and> department r = or_None (item_department item)
        \<and> status r = or_None (item_status item)
        \<and> enforce_date r = or_None (item_enforce_date item)
        \<and> promulgate_date r = or_None (item_promulgate_date item)
        \<and> detail_link r = or_None (item_detail_link item)
        \<and> law_type r = None \<and> score r = None \<and> snippet r = None)
     raw (map map_collector_result raw)"
  by (simp add: list_all2_map2 list_all2_same map_collector_result_def)

lemma map_collector_result_id:
  "item_law_id item = Some s \<Longrightarrow> law_id (map_collector_result item) = s"
  "item_law_name_kr item = Some n \<Longrightarrow> law_name_kr (map_collector_result item) = n"
  by (simp_all add: map_collector_result_def or_empty_def)

text \<open>
  C2. Whole-document search when the primary search returns no rows or raises, a
  secondary source is configured and returns \<open>raw\<close> (N records): the response
  carries exactly those N records, in their order, each with the id, name and other
  fields of the secondary's record (an absent or empty field as empty); the write-back
  into the primary store is called exactly once (with \<open>raw\<close>); and the outcome is the
  same response whatever the write-back, the commit and the rollback do, so that none
  of their failures reaches the caller.
\<close>

theorem law_search_secondary_write_back:
  assumes primary: "db_search env = Inr [] \<or> db_search env = Inl e"
    and key: "law_api_key \<noteq> []"
    and secondary: "collector_search_law env = Inr raw"
  shows "snd (law_search env law_api_key body) =
           Inr (respond body law_api_key (map map_collector_result raw) (Some ''law.go.kr''))
       \<and> resp_results (respond body law_api_key (map map_collector_result raw) (Some ''law.go.kr''))
           = map map_collector_result raw
       \<and> total_count (respond body law_api_key (map map_collector_result raw) (Some ''law.go.kr''))
           = length raw
       \<and> filter is_cache_to_db (fst (law_search env law_api_key body)) = [Cache_to_db raw]
       \<and> snd (law_search (env\<lparr>cache_search_results_to_db := wb, db_commit := c, db_rollback := r\<rparr>)
              law_api_key body) = snd (law_search env law_api_key body)
       \<and> (\<exists>resp. snd (law_search env law_api_key body) = Inr resp
            \<and> length (resp_results resp) = length raw
            \<and> map law_id (resp_results resp) = map (or_empty \<circ> item_law_id) raw
            \<and> list_all2
                 (\<lambda>item r.
                    law_id r = or_empty (item_law_id item)
                    \<and> law_name_kr r = or_empty (item_law_name_kr item)
                    \<and> law_abbr r = or_None (item_law_abbr item)
                    \<and> department r = or_None (item_department item)
                    \<and> status r = or_None (item_status item)
                    \<and> enforce_date r = or_None (item_enforce_date item)
                    \<and> promulgate_date r = or_None (item_promulgate_date item)
                    \<and> detail_link r = or_None (item_detail_link item)
                    \<and> law_type r = None \<and> score r = None \<and> snippet r = None)
                 raw (resp_results resp)
            \<and> (\<forall>i s. i < length raw \<and> item_law_id (raw ! i) = Some s
                   \<longrightarrow> law_id (resp_results resp ! i) = s)
            \<and> (\<forall>i n. i < length raw \<and> item_law_name_kr (raw ! i) = Some n
                   \<longrightarrow> law_name_kr (resp_results resp ! i) = n))"
proof -
  let ?env' = "env\<lparr>cache_search_results_to_db := wb, db_commit := c, db_rollback := r\<rparr>"
  let ?resp = "respond body law_api_key (map map_collector_result raw) (Some ''law.go.kr'')"
  have here: "law_search env law_api_key body =
      ([Db_search, Collector_search] @ write_back env raw, Inr ?resp)"
    by (rule law_search_secondary [OF primary key secondary])
  have primary': "db_search ?env' = Inr [] \<or> db_search ?env' = Inl e"
    using primary by simp
  have secondary': "collector_search_law ?env' = Inr raw"
    using secondary by simp
  have there: "law_search ?env' law_api_key body =
      ([Db_search, Collector_search] @ write_back ?env' raw, Inr ?resp)"
    by (rule law_search_secondary [OF primary' key secondary'])
  have calls: "filter is_cache_to_db (fst (law_search env law_api_key body)) = [Cache_to_db raw]"
    by (simp add: here write_back_calls)
  have fields: "resp_results ?resp = map map_collector_result raw"
     "total_count ?resp = length raw"
    by (simp_all add: respond_def)
  have ids: "map law_id (resp_results ?resp) = map (or_empty \<circ> item_law_id) raw"
    by (simp add: fields map_collector_result_def)
  have rel: "list_all2
                 (\<lambda>item r.
                    law_id r = or_empty (item_law_id item)
                    \<and> law_name_kr r = or_empty (item_law_name_kr item)
                    \<and> law_abbr r = or_None (item_law_abbr item)
                    \<and> department r = or_None (item_department item)
                    \<and> status r = or_None (item_status item)
                    \<and> enforce_date r = or_None (item_enforce_date item)
                    \<and> promulgate_date r = or_None (item_promulgate_date item)
                    \<and> detail_link r = or_None (item_detail_link item)
                    \<and> law_type r = None \<and> score r = None \<and> snippet r = None)
                 raw (resp_results ?resp)"
    unfolding fields by (rule map_collector_result_fields)
  have nth_id: "law_id (resp_results ?resp ! i) = s"
    if "i < length raw \<and> item_law_id (raw ! i) = Some s" for i s
    using that by (simp add: fields map_collector_result_id)
  have nth_name: "law_name_kr (resp_results ?resp ! i) = n"
    if "i < length raw \<and> item_law_name_kr (raw ! i) = Some n" for i n
    using that by (simp add: fields map_collector_result_id)
  have related: "\<exists>resp. snd (law_search env law_api_key body) = Inr resp
            \<and> length (resp_results resp) = length raw
            \<and> map law_id (resp_results resp) = map (or_empty \<circ> item_law_id) raw
            \<and> list_all2
                 (\<lambda>item r.
                    law_id r = or_empty (item_law_id item)
                    \<and> law_name_kr r = or_empty (item_law_name_kr item)
                    \<and> law_abbr r = or_None (item_law_abbr item)
                    \<and> department r = or_None (item_department item)
                    \<and> status r = or_None (item_status item)
                    \<and> enforce_date r = or_None (item_enforce_date item)
                    \<and> promulgate_date r = or_None (item_promulgate_date item)
                    \<and> detail_link r = or_None (item_detail_link item)
                    \<and> law_type r = None \<and> score r = None \<and> snippet r = None)
                 raw (resp_results resp)
            \<and> (\<forall>i s. i < length raw \<and> item_law_id (raw ! i) = Some s
                   \<longrightarrow> law_id (resp_results resp ! i) = s)
            \<and> (\<forall>i n. i < length raw \<and> item_law_name_kr (raw ! i) = Some n
                   \<longrightarrow> law_name_kr (resp_results resp ! i) = n)"
  proof (intro exI conjI allI impI)
    show "snd (law_search env law_api_key body) = Inr ?resp" by (simp add: here)
    show "length (resp_results ?resp) = length raw" by (simp add: fields)
    show "map law_id (resp_results ?resp) = map (or_empty \<circ> item_law_id) raw" by (rule ids)
  qed (use rel nth_id nth_name in blast)+
  have outcome: "snd (law_search env law_api_key body) = Inr ?resp"
    by (simp add: here)
  have same: "snd (law_search ?env' law_api_key body) = snd (law_search env law_api_key body)"
    by (simp add: here there)
  show ?thesis
    by (intro conjI outcome fields calls same related)
qed

theorem law_search_secondary_write_back_witness:
  "filter is_cache_to_db (fst (law_search
      \<lparr> db_search = Inl (Exn ''connection refused''),
        collector_search_law = Inr [\<lparr> item_law_id = Some ''001'', item_law_name_kr = Some ''Civil Act'',
          item_law_abbr = None, item_department = None, item_status = None,
          item_enforce_date = None, item_promulgate_date = None, item_detail_link = None \<rparr>],
        cache_search_results_to_db = (\<lambda>raw. Inl (Exn ''insert failed'')),
        db_commit = Inr (),
        db_rollback = Inl (Exn ''rollback failed'') \<rparr>
      ''key'' \<lparr> req_query = ''civil'', req_search_type = lexical, req_top_k = 20 \<rparr>))
    = [Cache_to_db [\<lparr> item_law_id = Some ''001'', item_law_name_kr = Some ''Civil Act'',
          item_law_abbr = None, item_department = None, item_status = None,
          item_enforce_date = None, item_promulgate_date = None, item_detail_link = None \<rparr>]]
   \<and> (\<exists>resp. snd (law_search
      \<lparr> db_search = Inl (Exn ''connection refused''),
        collector_search_law = Inr [\<lparr> item_law_id = Some ''001'', item_law_name_kr = Some ''Civil Act'',
          item_law_abbr = None, item_department = None, item_status = None,
          item_enforce_date = None, item_promulgate_date = None, item_detail_link = None \<rparr>],
        cache_search_results_to_db = (\<lambda>raw. Inl (Exn ''insert failed'')),
        db_commit = Inr (),
        db_rollback = Inl (Exn ''rollback failed'') \<rparr>
      ''key'' \<lparr> req_query = ''civil'', req_search_type = lexical, req_top_k = 20 \<rparr>) = Inr resp
      \<and> map law_id (resp_results resp) = [''001'']
      \<and> map law_name_kr (resp_results resp) = [''Civil Act''])"
proof -
  let ?item = "\<lparr> item_law_id = Some ''001'', item_law_name_kr = Some ''Civil Act'',
          item_law_abbr = None, item_department = None, item_status = None,
          item_enforce_date = None, item_promulgate_date = None, item_detail_link = None \<rparr>"
  let ?env = "\<lparr> db_search = Inl (Exn ''connection refused''),
        collector_search_law = Inr [?item],
        cache_search_results_to_db = (\<lambda>raw. Inl (Exn ''insert failed'')),
        db_commit = Inr (),
        db_rollback = Inl (Exn ''rollback failed'') \<rparr>"
  let ?body = "\<lparr> req_query = ''civil'', req_search_type = lexical, req_top_k = 20 \<rparr>"
  have primary: "db_search ?env = Inr [] \<or> db_search ?env = Inl (Exn ''connection refused'')"
    by simp
  have key: "''key'' \<noteq> []" by simp
  have secondary: "collector_search_law ?env = Inr [?item]" by simp
  note all = law_search_secondary_write_back [OF primary key secondary, of ?body]
  from all have calls:
    "filter is_cache_to_db (fst (law_search ?env ''key'' ?body)) = [Cache_to_db [?item]]"
    by blast
  from all obtain resp where resp: "snd (law_search ?env ''key'' ?body) = Inr resp"
    and rel: "list_all2
                 (\<lambda>item r.
                    law_id r = or_empty (item_law_id item)
                    \<and> law_name_kr r = or_empty (item_law_name_kr item)
                    \<and> law_abbr r = or_None (item_law_abbr item)
                    \<and> department r = or_None (item_department item)
                    \<and> status r = or_None (item_status item)
                    \<and> enforce_date r = or_None (item_enforce_date item)
                    \<and> promulgate_date r = or_None (item_promulgate_date item)
                    \<and> detail_link r = or_None (item_detail_link item)
                    \<and> law_type r = None \<and> score r = None \<and> snippet r = None)
                 [?item] (resp_results resp)"
    by blast
  from rel have names: "map law_id (resp_results resp) = [''001'']
      \<and> map law_name_kr (resp_results resp) = [''Civil Act'']"
    by (auto simp: list_all2_Cons1 or_empty_def)
  show ?thesis
    by (intro conjI exI [of _ resp] calls resp names [THEN conjunct1] names [THEN conjunct2])
qed

section \<open>Properties of the document store\<close>

lemma cosine_defined:
  assumes "length vec1 = length vec2"
  shows "cosine_similarity vec1 vec2 =
     Inr (if linalg_norm vec1 = 0 \<or> linalg_norm vec2 = 0 then 0
          else sum_list (map2 (*) vec1 vec2) / (linalg_norm vec1 * linalg_norm vec2))"
  using assms by (simp add: cosine_similarity_def np_dot_def np_divide_def Let_def)

lemma cosine_no_zero_divisor: "cosine_similarity vec1 vec2 \<noteq> Inl Divide_by_zero"
  by (simp add: cosine_similarity_def np_dot_def np_divide_def Let_def)

text \<open>
  C8 (amended). The cosine similarity never divides by a zero divisor, whatever the two
  vectors.  For two vectors of the same length it returns a number, and that number is
  exactly 0 when either vector has norm zero.  (Vectors of different lengths do not reach
  the norm check: the dot product raises.)
\<close>

theorem cosine_similarity_zero_norm:
  "cosine_similarity vec1 vec2 \<noteq> Inl Divide_by_zero
   \<and> (length vec1 = length vec2 \<longrightarrow>
        (\<exists>r. cosine_similarity vec1 vec2 = Inr r)
        \<and> (linalg_norm vec1 = 0 \<or> linalg_norm vec2 = 0 \<longrightarrow> cosine_similarity vec1 vec2 = Inr 0))"
  using cosine_defined [of vec1 vec2] cosine_no_zero_divisor [of vec1 vec2] by simp

theorem cosine_similarity_zero_norm_witness:
  "linalg_norm [0, 0] = 0 \<and> cosine_similarity [0, 0] [3, 4] = Inr 0"
proof -
  have len: "length [0, 0 :: real] = length [3, 4 :: real]" by simp
  have z: "linalg_norm [0, 0] = 0" by (simp add: linalg_norm_def)
  from cosine_similarity_zero_norm [of "[0, 0]" "[3, 4]"] len z show ?thesis by blast
qed

text \<open>
  C8 as stated fails for vectors of different lengths: the first has norm zero, and the
  call raises instead of returning 0.
\<close>

theorem cosine_similarity_shape_counterexample:
  "linalg_norm [0] = 0 \<and> cosine_similarity [0] [1, 2] = Inl Shapes_not_aligned
   \<and> cosine_similarity [0] [1, 2] \<noteq> Inr 0"
  by (simp add: linalg_norm_def cosine_similarity_def np_dot_def)

lemma getitem_default_fresh:
  assumes "map_of cs name = None \<or> map_of cs name = Some []"
  shows "fst (getitem_default cs name) = []"
    and "map_of (snd (getitem_default cs name)) name = Some []"
  using assms by (auto simp: getitem_default_def map_of_append map_add_def split: option.splits)

lemma apply_filters_Nil: "apply_filters filters [] = []"
  by (simp add: apply_filters_def split: option.splits)

text \<open>
  C10 (amended). In the in-memory store, \<open>search\<close> and \<open>count_documents\<close> called with a
  non-empty collection name under which no document is stored return the empty list and
  zero, and afterwards \<open>collection_exists\<close> holds for that name, though nothing was added.
\<close>

theorem mem_read_creates_collection:
  assumes name: "name \<noteq> []"
    and fresh: "map_of (collections s) name = None \<or> map_of (collections s) name = Some []"
  shows "fst (mem_search ops nan_sort s query_embedding top_k (Some name) filters) = Inr []
       \<and> mem_collection_exists (snd (mem_search ops nan_sort s query_embedding top_k (Some name) filters)) name
       \<and> fst (mem_count_documents s (Some name) filters) = 0
       \<and> mem_collection_exists (snd (mem_count_documents s (Some name) filters)) name"
proof -
  have coll: "get_collection_name (config_collection_name s) (Some name) = name"
    using name by (simp add: get_collection_name_def)
  note g = getitem_default_fresh [OF fresh]
  show ?thesis
    by (simp add: mem_search_def mem_count_documents_def mem_collection_exists_def
        coll g apply_filters_Nil Let_def)
qed

theorem mem_read_creates_collection_witness:
  "\<not> mem_collection_exists (mem_initialize (InMemoryVectorStore_init ''default'')) ''laws''
   \<and> fst (mem_search exact_ops (\<lambda>xs. xs) (mem_initialize (InMemoryVectorStore_init ''default''))
          [1] 10 (Some ''laws'') None)
       = Inr []
   \<and> mem_collection_exists
       (snd (mem_search exact_ops (\<lambda>xs. xs) (mem_initialize (InMemoryVectorStore_init ''default''))
          [1] 10 (Some ''laws'') None))
       ''laws''"
proof -
  let ?s = "mem_initialize (InMemoryVectorStore_init ''default'')"
  have name: "''laws'' \<noteq> []" by simp
  have fresh: "map_of (collections ?s) ''laws'' = None \<or> map_of (collections ?s) ''laws'' = Some []"
    by (simp add: mem_initialize_def InMemoryVectorStore_init_def)
  have before: "\<not> mem_collection_exists ?s ''laws''"
    by (simp add: mem_collection_exists_def mem_initialize_def InMemoryVectorStore_init_def)
  from mem_read_creates_collection [OF name fresh, of exact_ops "\<lambda>xs. xs" "[1]" 10 None] before
  show ?thesis by blast
qed

text \<open>
  C10 as stated fails for the empty name, which the store reads as "no collection given":
  the call is answered from the default collection, here with one document, and the
  empty name is not created.
\<close>

theorem mem_empty_name_counterexample:
  "map_of (collections (snd (mem_add_documents (InMemoryVectorStore_init ''default'')
       [\<lparr> doc_id = ''a'', embedding = [1], content = ''x'', metadata = [], payload = None \<rparr>] None))) '''' = None
   \<and> fst (mem_count_documents (snd (mem_add_documents (InMemoryVectorStore_init ''default'')
       [\<lparr> doc_id = ''a'', embedding = [1], content = ''x'', metadata = [], payload = None \<rparr>] None))
       (Some '''') None) = 1
   \<and> \<not> mem_collection_exists
       (snd (mem_count_documents (snd (mem_add_documents (InMemoryVectorStore_init ''default'')
       [\<lparr> doc_id = ''a'', embedding = [1], content = ''x'', metadata = [], payload = None \<rparr>] None))
       (Some '''') None)) ''''"
  by (simp add: mem_add_documents_def InMemoryVectorStore_init_def get_collection_name_def
      getitem_default_def mem_count_documents_def apply_filters_def mem_collection_exists_def
      Let_def)

text \<open>
  C6. The in-memory store does not check \<open>_initialized\<close>: on a store that was never
  initialised every operation is carried out.  \<open>add_documents\<close> returns the id and
  stores the document; \<open>delete_documents\<close>, \<open>search\<close>, \<open>hybrid_search\<close>,
  \<open>count_documents\<close> and \<open>delete_collection\<close> return their results for an empty store.
\<close>

theorem mem_operations_before_initialize:
  "store_initialized (InMemoryVectorStore_init ''default'') = False
   \<and> mem_add_documents (InMemoryVectorStore_init ''default'')
       [\<lparr> doc_id = ''a'', embedding = [1], content = ''x'', metadata = [], payload = None \<rparr>] None
     = ([''a''],
        \<lparr> config_collection_name = ''default'',
          collections = [(''default'',
            [(''a'', \<lparr> doc_id = ''a'', embedding = [1], content = ''x'', metadata = [], payload = None \<rparr>)])],
          store_initialized = False \<rparr>)
   \<and> fst (mem_delete_documents (InMemoryVectorStore_init ''default'') [''a''] None) = 0
   \<and> fst (mem_search ops nan_sort (InMemoryVectorStore_init ''default'') [1] 10 None None) = Inr []
   \<and> fst (mem_hybrid_search ops nan_sort (InMemoryVectorStore_init ''default'') ''x'' [1] 10 None None
          0.7 0.3)
       = Inr []
   \<and> fst (mem_count_documents (InMemoryVectorStore_init ''default'') None None) = 0
   \<and> mem_delete_collection (InMemoryVectorStore_init ''default'') ''default''
       = InMemoryVectorStore_init ''default''"
  by (simp add: mem_add_documents_def InMemoryVectorStore_init_def get_collection_name_def
      getitem_default_def mem_delete_documents_def mem_search_def mem_hybrid_search_def
      mem_count_documents_def mem_delete_collection_def apply_filters_def slice_to_def Let_def)

lemma sorted_sort_desc: "sorted_wrt (\<lambda>a b. f a \<ge> f b) (sort_desc f xs)"
proof -
  have "sorted (map (\<lambda>x. - f x) (sort_key (\<lambda>x. - f x) xs))"
    by (rule sorted_sort_key)
  then show ?thesis
    by (simp add: sort_desc_def sorted_map)
qed

lemma sorted_slice_to: "sorted_wrt R xs \<Longrightarrow> sorted_wrt R (slice_to k xs)"
  by (simp add: slice_to_def sorted_wrt_take)

lemma length_slice_to: "0 \<le> k \<Longrightarrow> int (length (slice_to k xs)) \<le> k"
  by (simp add: slice_to_def)

lemma desc_key_le: "desc_key a \<le> desc_key b \<longleftrightarrow> float_key b \<le> float_key a"
  by (auto simp: desc_key_def less_eq_prod_def)

lemma no_nan_iff: "list_all (\<lambda>x. f x \<noteq> NaN) xs \<longleftrightarrow> \<not> list_ex (\<lambda>x. f x = NaN) xs"
  by (simp add: list_all_iff list_ex_iff)

lemma sort_scores_no_nan:
  "list_all (\<lambda>x. f x \<noteq> NaN) xs
   \<Longrightarrow> sort_scores nan_sort f xs = sort_key (\<lambda>x. desc_key (f x)) xs"
  by (simp add: sort_scores_def no_nan_iff)

lemma sorted_sort_scores:
  assumes no_nan: "list_all (\<lambda>x. f x \<noteq> NaN) xs"
  shows "sorted_wrt (\<lambda>a b. float_le (f b) (f a)) (sort_scores nan_sort f xs)"
proof -
  let ?ys = "sort_key (\<lambda>x. desc_key (f x)) xs"
  have "sorted (map (\<lambda>x. desc_key (f x)) ?ys)"
    by (rule sorted_sort_key)
  then have keys: "sorted_wrt (\<lambda>a b. desc_key (f a) \<le> desc_key (f b)) ?ys"
    by (simp add: sorted_map)
  have members: "\<And>x. x \<in> set ?ys \<Longrightarrow> f x \<noteq> NaN"
    using no_nan by (simp add: list_all_iff)
  have "sorted_wrt (\<lambda>a b. float_le (f b) (f a)) ?ys"
  proof (rule sorted_wrt_mono_rel [OF _ keys])
    fix x y
    assume "x \<in> set ?ys" "y \<in> set ?ys" "desc_key (f x) \<le> desc_key (f y)"
    then show "float_le (f y) (f x)"
      using members by (simp add: float_le_def desc_key_le)
  qed
  then show ?thesis
    by (simp only: sort_scores_no_nan [OF no_nan])
qed

lemma sorted_ranked:
  assumes "list_all (\<lambda>p. snd p \<noteq> NaN) xs"
  shows "sorted_wrt (\<lambda>a b. float_le (sr_score b) (sr_score a)) (ranked nan_sort k xs)"
proof -
  have "sorted_wrt (\<lambda>a b. float_le (snd b) (snd a)) (slice_to k (sort_scores nan_sort snd xs))"
    by (rule sorted_slice_to) (rule sorted_sort_scores [OF assms])
  then show ?thesis
    by (simp add: ranked_def sorted_wrt_map to_search_result_def)
qed

lemma length_ranked: "0 \<le> k \<Longrightarrow> int (length (ranked nan_sort k xs)) \<le> k"
  using length_slice_to [of k "sort_scores nan_sort snd xs"] by (simp add: ranked_def)

lemma ranked_permutation:
  assumes "list_all (\<lambda>p. snd p \<noteq> NaN) xs"
  shows "\<exists>ys. set ys = set xs \<and> length ys = length xs
            \<and> ranked nan_sort k xs = map to_search_result (slice_to k ys)"
  by (rule exI [of _ "sort_key (\<lambda>x. desc_key (snd x)) xs"])
    (simp add: ranked_def sort_scores_no_nan [OF assms])

lemma ranked_Nil: "ranked nan_sort k [] = []"
  by (simp add: ranked_def sort_scores_def slice_to_def)

lemma fs_results_with_scores_Nil:
  "fs_results_with_scores ops json_dumps [] query query_embedding vw lw = Inr []"
  by (simp add: fs_results_with_scores_def lexical_search_def sort_desc_def
      List.map_filter_def Let_def)

lemma fs_hybrid_search_ranked:
  assumes "fs_results_with_scores ops json_dumps (apply_filters filters documents) query
             query_embedding vw lw = Inr xs"
  shows "fs_hybrid_search ops nan_sort json_dumps documents query query_embedding top_k filters
           vw lw = Inr (ranked nan_sort top_k xs)"
proof (cases "apply_filters filters documents = []")
  case True
  with assms have "xs = []"
    by (simp add: fs_results_with_scores_Nil)
  with True show ?thesis
    by (simp add: fs_hybrid_search_def ranked_Nil)
next
  case False
  with assms show ?thesis
    by (simp add: fs_hybrid_search_def)
qed

lemma mem_search_ranked:
  assumes "score_documents ops query_embedding
             (apply_filters filters (mem_documents s collection)) = Inr xs"
  shows "fst (mem_search ops nan_sort s query_embedding top_k collection filters)
           = Inr (ranked nan_sort top_k xs)"
proof (cases "apply_filters filters (mem_documents s collection) = []")
  case True
  with assms have "xs = []"
    by simp
  with True show ?thesis
    by (simp add: mem_search_def mem_documents_def ranked_Nil)
next
  case False
  with assms show ?thesis
    by (simp add: mem_search_def mem_documents_def)
qed

lemma mem_hybrid_search_ranked:
  assumes "score_documents ops query_embedding
             (apply_filters filters (mem_documents s collection)) = Inr xs"
  shows "fst (mem_hybrid_search ops nan_sort s query query_embedding top_k collection filters
                vw lw)
           = Inr (slice_to top_k (ranked nan_sort (top_k * 2) xs))"
proof -
  obtain r s' where call: "mem_search ops nan_sort s query_embedding (top_k * 2) collection filters
      = (r, s')"
    by (cases "mem_search ops nan_sort s query_embedding (top_k * 2) collection filters")
  with mem_search_ranked [OF assms, of nan_sort "top_k * 2"]
  have "r = Inr (ranked nan_sort (top_k * 2) xs)"
    by simp
  with call show ?thesis
    by (simp add: mem_hybrid_search_def)
qed

text \<open>
  On the exact operations \<open>_cosine_similarity\<close> is the function of the section on the
  document store.
\<close>

lemma cosine_similarity_float_exact:
  "cosine_similarity_float exact_ops vec1 vec2
   = (case cosine_similarity vec1 vec2 of Inl e \<Rightarrow> Inl e | Inr r \<Rightarrow> Inr (Finite r))"
  by (simp add: cosine_similarity_float_def cosine_similarity_def exact_ops_def np_dot_def
      np_divide_def Let_def)

text \<open>
  C7 (amended). For every document set, query, embedding and every \<open>top_k\<close>, also a
  negative one: when the scoring loop of \<open>hybrid_search\<close> ends without an exception and
  none of the scores it computed is NaN, then \<open>hybrid_search\<close> returns a list that is in
  non-increasing order of the score (Python's \<open><=\<close> on floats holds between the score of
  every later and every earlier element), and that has at most \<open>top_k\<close> elements when
  \<open>top_k\<close> is not negative.  The list is the cut to \<open>top_k\<close> of a rearrangement of all
  scored documents.  This holds in the file-backed store, whose score is the weighted
  sum, and in the in-memory store, whose score is the cosine similarity alone, whatever
  the floating-point operations return otherwise.
\<close>

theorem hybrid_search_ranked:
  "(fs_results_with_scores ops json_dumps (apply_filters filters documents) query
        query_embedding vw lw = Inr xs
      \<and> list_all (\<lambda>p. snd p \<noteq> NaN) xs
    \<longrightarrow> (\<exists>rs. fs_hybrid_search ops nan_sort json_dumps documents query query_embedding top_k
                filters vw lw = Inr rs
           \<and> sorted_wrt (\<lambda>a b. float_le (sr_score b) (sr_score a)) rs
           \<and> (0 \<le> top_k \<longrightarrow> int (length rs) \<le> top_k)
           \<and> (\<exists>ys. set ys = set xs \<and> length ys = length xs
                \<and> rs = map to_search_result (slice_to top_k ys))))
   \<and> (score_documents ops query_embedding
          (apply_filters filters (mem_documents s collection)) = Inr xs'
      \<and> list_all (\<lambda>p. snd p \<noteq> NaN) xs'
    \<longrightarrow> (\<exists>rs. fst (mem_hybrid_search ops nan_sort s query query_embedding top_k collection
                filters vw lw) = Inr rs
           \<and> sorted_wrt (\<lambda>a b. float_le (sr_score b) (sr_score a)) rs
           \<and> (0 \<le> top_k \<longrightarrow> int (length rs) \<le> top_k)
           \<and> (\<exists>ys. set ys = set xs' \<and> length ys = length xs'
                \<and> rs = slice_to top_k (map to_search_result (slice_to (top_k * 2) ys)))))"
proof (intro conjI impI)
  assume "fs_results_with_scores ops json_dumps (apply_filters filters documents) query
        query_embedding vw lw = Inr xs \<and> list_all (\<lambda>p. snd p \<noteq> NaN) xs"
  then have scores: "fs_results_with_scores ops json_dumps (apply_filters filters documents)
        query query_embedding vw lw = Inr xs"
    and no_nan: "list_all (\<lambda>p. snd p \<noteq> NaN) xs"
    by simp_all
  let ?rs = "ranked nan_sort top_k xs"
  have returned: "fs_hybrid_search ops nan_sort json_dumps documents query query_embedding top_k
      filters vw lw = Inr ?rs"
    by (rule fs_hybrid_search_ranked [OF scores])
  have ordered: "sorted_wrt (\<lambda>a b. float_le (sr_score b) (sr_score a)) ?rs"
    by (rule sorted_ranked [OF no_nan])
  have bounded: "0 \<le> top_k \<longrightarrow> int (length ?rs) \<le> top_k"
    by (simp add: length_ranked)
  have rearranged: "\<exists>ys. set ys = set xs \<and> length ys = length xs
      \<and> ?rs = map to_search_result (slice_to top_k ys)"
    by (rule ranked_permutation [OF no_nan])
  show "\<exists>rs. fs_hybrid_search ops nan_sort json_dumps documents query query_embedding top_k
                filters vw lw = Inr rs
           \<and> sorted_wrt (\<lambda>a b. float_le (sr_score b) (sr_score a)) rs
           \<and> (0 \<le> top_k \<longrightarrow> int (length rs) \<le> top_k)
           \<and> (\<exists>ys. set ys = set xs \<and> length ys = length xs
                \<and> rs = map to_search_result (slice_to top_k ys))"
    by (rule exI [of _ ?rs]) (intro conjI returned ordered bounded rearranged)
next
  assume "score_documents ops query_embedding
          (apply_filters filters (mem_documents s collection)) = Inr xs'
      \<and> list_all (\<lambda>p. snd p \<noteq> NaN) xs'"
  then have scores: "score_documents ops query_embedding
          (apply_filters filters (mem_documents s collection)) = Inr xs'"
    and no_nan: "list_all (\<lambda>p. snd p \<noteq> NaN) xs'"
    by simp_all
  let ?vs = "ranked nan_sort (top_k * 2) xs'"
  let ?rs = "slice_to top_k ?vs"
  have returned: "fst (mem_hybrid_search ops nan_sort s query query_embedding top_k collection
      filters vw lw) = Inr ?rs"
    by (rule mem_hybrid_search_ranked [OF scores])
  have ordered: "sorted_wrt (\<lambda>a b. float_le (sr_score b) (sr_score a)) ?rs"
    by (rule sorted_slice_to) (rule sorted_ranked [OF no_nan])
  have bounded: "0 \<le> top_k \<longrightarrow> int (length ?rs) \<le> top_k"
    by (simp add: length_slice_to)
  from ranked_permutation [OF no_nan, of nan_sort "top_k * 2"]
  have rearranged: "\<exists>ys. set ys = set xs' \<and> length ys = length xs'
      \<and> ?rs = slice_to top_k (map to_search_result (slice_to (top_k * 2) ys))"
    by auto
  show "\<exists>rs. fst (mem_hybrid_search ops nan_sort s query query_embedding top_k collection
                filters vw lw) = Inr rs
           \<and> sorted_wrt (\<lambda>a b. float_le (sr_score b) (sr_score a)) rs
           \<and> (0 \<le> top_k \<longrightarrow> int (length rs) \<le> top_k)
           \<and> (\<exists>ys. set ys = set xs' \<and> length ys = length xs'
                \<and> rs = slice_to top_k (map to_search_result (slice_to (top_k * 2) ys)))"
    by (rule exI [of _ ?rs]) (intro conjI returned ordered bounded rearranged)
qed

lemmas hybrid_search_eval =
  fs_hybrid_search_def fs_results_with_scores_def apply_filters_def cosine_similarity_float_def
  exact_ops_def linalg_norm_def lexical_search_def lexical_doc_score_def searchable_text_def
  lower_def is_upper_def str_in_def str_find_def split_ws_def is_space_def sort_desc_def
  sort_scores_def desc_key_def float_key_def
  List.map_filter_def dict_get_def ranked_def slice_to_def to_search_result_def Let_def
  mem_hybrid_search_def mem_search_def mem_documents_def mem_add_documents_def
  InMemoryVectorStore_init_def get_collection_name_def getitem_default_def

lemma fs_results_with_scores_example:
  "fs_results_with_scores exact_ops (\<lambda>m. ''{}'')
     (apply_filters None
       [\<lparr> doc_id = ''a'', embedding = [1, 0], content = ''tax law'', metadata = [], payload = None \<rparr>,
        \<lparr> doc_id = ''b'', embedding = [0, 1], content = ''civil act'', metadata = [], payload = None \<rparr>])
     ''Civil'' [0, 1] 0.7 0.3
   = Inr [(\<lparr> doc_id = ''a'', embedding = [1, 0], content = ''tax law'', metadata = [], payload = None \<rparr>,
           Finite 0),
          (\<lparr> doc_id = ''b'', embedding = [0, 1], content = ''civil act'', metadata = [], payload = None \<rparr>,
           Finite 1)]"
  by (simp add: hybrid_search_eval)

lemma fs_hybrid_search_example:
  "fs_hybrid_search exact_ops (\<lambda>xs. xs) (\<lambda>m. ''{}'')
     [\<lparr> doc_id = ''a'', embedding = [1, 0], content = ''tax law'', metadata = [], payload = None \<rparr>,
      \<lparr> doc_id = ''b'', embedding = [0, 1], content = ''civil act'', metadata = [], payload = None \<rparr>]
     ''Civil'' [0, 1] 2 None 0.7 0.3
   = Inr [\<lparr> sr_id = ''b'', sr_score = Finite 1, sr_content = Some ''civil act'', sr_metadata = [],
            sr_payload = None \<rparr>,
          \<lparr> sr_id = ''a'', sr_score = Finite 0, sr_content = Some ''tax law'', sr_metadata = [],
            sr_payload = None \<rparr>]"
  by (simp add: hybrid_search_eval)

lemma score_documents_example:
  "score_documents exact_ops [0, 1]
     (apply_filters None
        (mem_documents
          (snd (mem_add_documents (InMemoryVectorStore_init ''default'')
            [\<lparr> doc_id = ''a'', embedding = [1, 0], content = ''tax law'', metadata = [], payload = None \<rparr>,
             \<lparr> doc_id = ''b'', embedding = [0, 1], content = ''civil act'', metadata = [], payload = None \<rparr>]
            None))
          None))
   = Inr [(\<lparr> doc_id = ''a'', embedding = [1, 0], content = ''tax law'', metadata = [], payload = None \<rparr>,
           Finite 0),
          (\<lparr> doc_id = ''b'', embedding = [0, 1], content = ''civil act'', metadata = [], payload = None \<rparr>,
           Finite 1)]"
  by (simp add: hybrid_search_eval)

lemma mem_hybrid_search_example:
  "fst (mem_hybrid_search exact_ops (\<lambda>xs. xs)
     (snd (mem_add_documents (InMemoryVectorStore_init ''default'')
       [\<lparr> doc_id = ''a'', embedding = [1, 0], content = ''tax law'', metadata = [], payload = None \<rparr>,
        \<lparr> doc_id = ''b'', embedding = [0, 1], content = ''civil act'', metadata = [], payload = None \<rparr>]
       None))
     ''Civil'' [0, 1] 2 None None 0.7 0.3)
   = Inr [\<lparr> sr_id = ''b'', sr_score = Finite 1, sr_content = Some ''civil act'', sr_metadata = [],
            sr_payload = None \<rparr>,
          \<lparr> sr_id = ''a'', sr_score = Finite 0, sr_content = Some ''tax law'', sr_metadata = [],
            sr_payload = None \<rparr>]"
  by (simp add: hybrid_search_eval)

theorem hybrid_search_ranked_witness:
  "(\<exists>rs. fs_hybrid_search exact_ops (\<lambda>xs. xs) (\<lambda>m. ''{}'')
       [\<lparr> doc_id = ''a'', embedding = [1, 0], content = ''tax law'', metadata = [], payload = None \<rparr>,
        \<lparr> doc_id = ''b'', embedding = [0, 1], content = ''civil act'', metadata = [], payload = None \<rparr>]
       ''Civil'' [0, 1] 2 None 0.7 0.3 = Inr rs
      \<and> map sr_id rs = [''b'', ''a''] \<and> map sr_score rs = [Finite 1, Finite 0]
      \<and> sorted_wrt (\<lambda>a b. float_le (sr_score b) (sr_score a)) rs \<and> int (length rs) \<le> 2)
   \<and> (\<exists>rs. fst (mem_hybrid_search exact_ops (\<lambda>xs. xs)
       (snd (mem_add_documents (InMemoryVectorStore_init ''default'')
         [\<lparr> doc_id = ''a'', embedding = [1, 0], content = ''tax law'', metadata = [], payload = None \<rparr>,
          \<lparr> doc_id = ''b'', embedding = [0, 1], content = ''civil act'', metadata = [], payload = None \<rparr>]
         None))
       ''Civil'' [0, 1] 2 None None 0.7 0.3) = Inr rs
      \<and> map sr_id rs = [''b'', ''a''] \<and> map sr_score rs = [Finite 1, Finite 0]
      \<and> sorted_wrt (\<lambda>a b. float_le (sr_score b) (sr_score a)) rs \<and> int (length rs) \<le> 2)"
proof -
  let ?a = "\<lparr> doc_id = ''a'', embedding = [1, 0], content = ''tax law'', metadata = [],
               payload = None \<rparr>"
  let ?b = "\<lparr> doc_id = ''b'', embedding = [0, 1], content = ''civil act'', metadata = [],
               payload = None \<rparr>"
  let ?xs = "[(?a, Finite 0), (?b, Finite 1)]"
  have no_nan: "list_all (\<lambda>p. snd p \<noteq> NaN) ?xs"
    by simp
  note fs_scores = fs_results_with_scores_example
  note mem_scores = score_documents_example
  from hybrid_search_ranked [THEN conjunct1, rule_format, OF conjI, OF fs_scores no_nan,
      of "\<lambda>xs. xs" 2]
  obtain rs where fs: "fs_hybrid_search exact_ops (\<lambda>xs. xs) (\<lambda>m. ''{}'') [?a, ?b] ''Civil''
        [0, 1] 2 None 0.7 0.3 = Inr rs"
    and fs_sorted: "sorted_wrt (\<lambda>a b. float_le (sr_score b) (sr_score a)) rs"
    and fs_length: "int (length rs) \<le> 2"
    by auto
  from fs have fs_rs: "map sr_id rs = [''b'', ''a''] \<and> map sr_score rs = [Finite 1, Finite 0]"
    by (auto simp: fs_hybrid_search_example)
  from hybrid_search_ranked [THEN conjunct2, rule_format, OF conjI, OF mem_scores no_nan,
      of "\<lambda>xs. xs" "''Civil''" 2 "0.7" "0.3"]
  obtain rs' where mem: "fst (mem_hybrid_search exact_ops (\<lambda>xs. xs)
        (snd (mem_add_documents (InMemoryVectorStore_init ''default'') [?a, ?b] None))
        ''Civil'' [0, 1] 2 None None 0.7 0.3) = Inr rs'"
    and mem_sorted: "sorted_wrt (\<lambda>a b. float_le (sr_score b) (sr_score a)) rs'"
    and mem_length: "int (length rs') \<le> 2"
    by auto
  from mem have mem_rs: "map sr_id rs' = [''b'', ''a''] \<and> map sr_score rs' = [Finite 1, Finite 0]"
    by (auto simp: mem_hybrid_search_example)
  show ?thesis
    by (intro conjI exI [of _ rs] exI [of _ rs'] fs fs_rs [THEN conjunct1] fs_rs [THEN conjunct2]
        fs_sorted fs_length mem mem_rs [THEN conjunct1] mem_rs [THEN conjunct2]
        mem_sorted mem_length)
qed

text \<open>
  C7 as stated fails for a negative \<open>top_k\<close>: \<open>xs[:-1]\<close> drops the last element, so two
  stored documents and \<open>top_k = -1\<close> give one result, more than \<open>top_k\<close>.
\<close>

theorem hybrid_search_negative_top_k_counterexample:
  "fs_hybrid_search exact_ops (\<lambda>xs. xs) (\<lambda>m. ''{}'')
     [\<lparr> doc_id = ''a'', embedding = [1, 0], content = ''tax law'', metadata = [], payload = None \<rparr>,
      \<lparr> doc_id = ''b'', embedding = [0, 1], content = ''civil act'', metadata = [], payload = None \<rparr>]
     ''Civil'' [0, 1] (- 1) None 0.7 0.3
   = Inr [\<lparr> sr_id = ''b'', sr_score = Finite 1, sr_content = Some ''civil act'', sr_metadata = [],
            sr_payload = None \<rparr>]
   \<and> \<not> int (length [\<lparr> sr_id = ''b'', sr_score = Finite 1, sr_content = Some ''civil act'',
            sr_metadata = [], sr_payload = None \<rparr>]) \<le> - 1"
  by (simp add: hybrid_search_eval)

text \<open>
  The hypothesis on NaN is needed.  A score can be NaN where a product of norms
  overflows; Python's comparisons with NaN are all false, and a list holding one is
  returned in an order that need not descend.  With the scores \<open>-1\<close>, NaN, \<open>1\<close> left in
  place by the sort, the result is not in non-increasing order.
\<close>

lemma ranked_nan_example:
  "map sr_score (ranked (\<lambda>xs. xs) 10
       [(\<lparr> doc_id = ''a'', embedding = [- 1], content = ''x'', metadata = [], payload = None \<rparr>,
         Finite (- 1)),
        (\<lparr> doc_id = ''b'', embedding = [1], content = ''y'', metadata = [], payload = None \<rparr>, NaN),
        (\<lparr> doc_id = ''c'', embedding = [1], content = ''z'', metadata = [], payload = None \<rparr>,
         Finite 1)])
     = [Finite (- 1), NaN, Finite 1]
   \<and> \<not> sorted_wrt (\<lambda>a b. float_le b a) [Finite (- 1), NaN, Finite 1]"
  by (simp add: ranked_def sort_scores_def slice_to_def to_search_result_def float_le_def
      float_key_def)

section \<open>Properties of the cache\<close>

lemma cache_get_expired:
  assumes "cache_initialized c"
    and "cache_store c key = None \<or> (\<exists>v e. cache_store c key = Some (v, e) \<and> e < check_time)"
  shows "\<exists>c'. cache_get c sweep_time check_time key = Inr (None, c')"
  using assms
  by (auto simp: cache_get_def cleanup_expired_def Let_def split: option.splits)

lemma cache_get_sweeps:
  assumes "cache_initialized c"
  shows "\<exists>r c'. cache_get c sweep_time check_time key = Inr (r, c')
           \<and> (\<forall>k v e. cache_store c' k = Some (v, e) \<longrightarrow> \<not> e < sweep_time)"
  using assms
  by (auto simp: cache_get_def cleanup_expired_def Let_def split: option.splits if_splits)

text \<open>
  C9 (amended). In the in-process cache, \<open>set(key, value, ttl)\<close> at time \<open>t0\<close> stores the
  entry with expiry \<open>t0 + e\<close>, where \<open>e\<close> is \<open>ttl\<close> when that is given and not zero and the
  configured default otherwise; every \<open>get(key)\<close> whose clock reads more than \<open>t0 + e\<close>
  then returns absent, whether or not the entry is still stored (so does any \<open>get\<close> of a
  key whose entry is absent or past its expiry); and every \<open>get\<close> first removes all
  entries whose expiry is earlier than the time of its sweep.
\<close>

theorem cache_lazy_expiry:
  assumes init: "cache_initialized c"
  shows "(\<exists>c1. cache_set c t0 key v ttl = Inr c1
            \<and> cache_store c1 key = Some (v, t0 + real_of_int (effective_ttl c ttl))
            \<and> (\<forall>sweep_time check_time. t0 + real_of_int (effective_ttl c ttl) < check_time \<longrightarrow>
                  (\<exists>c2. cache_get c1 sweep_time check_time key = Inr (None, c2))))
       \<and> (\<forall>k sweep_time check_time.
            (cache_store c k = None \<or> (\<exists>v' e. cache_store c k = Some (v', e) \<and> e < check_time)) \<longrightarrow>
            (\<exists>c2. cache_get c sweep_time check_time k = Inr (None, c2)))
       \<and> (\<forall>k sweep_time check_time. \<exists>r c2. cache_get c sweep_time check_time k = Inr (r, c2)
            \<and> (\<forall>k' v' e. cache_store c2 k' = Some (v', e) \<longrightarrow> \<not> e < sweep_time))"
proof (intro conjI allI impI)
  let ?c1 = "c\<lparr>cache_store := (cache_store c)(key \<mapsto> (v, t0 + real_of_int (effective_ttl c ttl)))\<rparr>"
  have set: "cache_set c t0 key v ttl = Inr ?c1"
    using init by (simp add: cache_set_def)
  have init1: "cache_initialized ?c1" using init by simp
  have stored: "cache_store ?c1 key = Some (v, t0 + real_of_int (effective_ttl c ttl))" by simp
  have "\<exists>c2. cache_get ?c1 sweep_time check_time key = Inr (None, c2)"
    if "t0 + real_of_int (effective_ttl c ttl) < check_time" for sweep_time check_time
    by (rule cache_get_expired [OF init1]) (use that stored in blast)
  with set stored
  show "\<exists>c1. cache_set c t0 key v ttl = Inr c1
            \<and> cache_store c1 key = Some (v, t0 + real_of_int (effective_ttl c ttl))
            \<and> (\<forall>sweep_time check_time. t0 + real_of_int (effective_ttl c ttl) < check_time \<longrightarrow>
                  (\<exists>c2. cache_get c1 sweep_time check_time key = Inr (None, c2)))"
    by blast
next
  fix k sweep_time check_time
  assume "cache_store c k = None \<or> (\<exists>v' e. cache_store c k = Some (v', e) \<and> e < check_time)"
  then show "\<exists>c2. cache_get c sweep_time check_time k = Inr (None, c2)"
    by (rule cache_get_expired [OF init])
next
  fix k sweep_time check_time
  show "\<exists>r c2. cache_get c sweep_time check_time k = Inr (r, c2)
            \<and> (\<forall>k' v' e. cache_store c2 k' = Some (v', e) \<longrightarrow> \<not> e < sweep_time)"
    by (rule cache_get_sweeps [OF init])
qed

theorem cache_lazy_expiry_witness:
  "\<exists>c1. cache_set \<lparr> config_ttl = 3600, cache_store = Map.empty, cache_initialized = True \<rparr>
           100 ''k'' ''v'' (Some 1) = Inr c1
       \<and> cache_store c1 ''k'' = Some (''v'', 101)
       \<and> (\<exists>c2. cache_get c1 102 102 ''k'' = Inr (None, c2))"
proof -
  let ?c = "\<lparr> config_ttl = 3600, cache_store = Map.empty, cache_initialized = True \<rparr>"
  have init: "cache_initialized ?c" by simp
  have e: "effective_ttl ?c (Some 1) = 1" by (simp add: effective_ttl_def)
  from cache_lazy_expiry [OF init, of 100 "''k''" "''v''" "Some 1", THEN conjunct1]
  show ?thesis
    unfolding e by force
qed

text \<open>
  C9 as stated fails for \<open>ttl = 0\<close>, which \<open>ttl or self.config.ttl\<close> replaces by the
  configured default: set at time 0 with \<open>ttl = 0\<close> under a default of 3600, the entry is
  still returned at time 1, which is later than \<open>t0 + ttl\<close>.
\<close>

theorem cache_zero_ttl_counterexample:
  "cache_set \<lparr> config_ttl = 3600, cache_store = Map.empty, cache_initialized = True \<rparr>
       0 ''k'' ''v'' (Some 0)
     = Inr \<lparr> config_ttl = 3600, cache_store = [''k'' \<mapsto> (''v'', 3600)], cache_initialized = True \<rparr>
   \<and> (0::real) + real_of_int 0 < 1
   \<and> cache_get \<lparr> config_ttl = 3600, cache_store = [''k'' \<mapsto> (''v'', 3600)], cache_initialized = True \<rparr>
        1 1 ''k''
     = Inr (Some ''v'',
          \<lparr> config_ttl = 3600, cache_store = [''k'' \<mapsto> (''v'', 3600)], cache_initialized = True \<rparr>)"
  by (auto simp: cache_set_def effective_ttl_def cache_get_def cleanup_expired_def Let_def fun_eq_iff)

section \<open>Properties of the scoring engine\<close>

text \<open>\<open>lower_char\<close> adds 32 to the code point of an upper-case letter.\<close>

lemma lower_char_code:
  "of_char (lower_char c) = (if is_upper c then (of_char c :: nat) + 32 else of_char c)"
proof (cases c)
  case (Char b0 b1 b2 b3 b4 b5 b6 b7)
  show ?thesis
    unfolding Char
    by (cases b5; cases b6; cases b7) (simp_all add: is_upper_def Let_def)
qed

lemma find_from_Some:
  "find_from i needle hay = Some j \<Longrightarrow>
     i \<le> j \<and> j - i \<le> length hay \<and> prefix needle (drop (j - i) hay)
     \<and> (\<forall>p < j - i. \<not> prefix needle (drop p hay))"
proof (induction hay arbitrary: i)
  case Nil
  then show ?case by (simp split: if_splits)
next
  case (Cons c cs)
  show ?case
  proof (cases "prefix needle (c # cs)")
    case True
    with Cons.prems show ?thesis by simp
  next
    case False
    with Cons.prems have rec: "find_from (Suc i) needle cs = Some j" by simp
    from Cons.IH [OF rec] have
      le: "Suc i \<le> j" and len: "j - Suc i \<le> length cs"
      and pre: "prefix needle (drop (j - Suc i) cs)"
      and first: "\<forall>p < j - Suc i. \<not> prefix needle (drop p cs)"
      by blast+
    from le have eq: "j - i = Suc (j - Suc i)" by simp
    have "\<not> prefix needle (drop p (c # cs))" if "p < j - i" for p
    proof (cases p)
      case 0
      with False show ?thesis by simp
    next
      case (Suc p')
      with that eq have "p' < j - Suc i" by simp
      with first Suc show ?thesis by simp
    qed
    with le len pre eq show ?thesis by simp
  qed
qed

lemma find_from_None:
  "find_from i needle hay = None \<Longrightarrow> p \<le> length hay \<Longrightarrow> \<not> prefix needle (drop p hay)"
proof (induction hay arbitrary: i p)
  case Nil
  then show ?case by (simp split: if_splits)
next
  case (Cons c cs)
  from Cons.prems(1) have no: "\<not> prefix needle (c # cs)"
    and rec: "find_from (Suc i) needle cs = None"
    by (simp_all split: if_splits)
  show ?case
  proof (cases p)
    case 0
    with no show ?thesis by simp
  next
    case (Suc p')
    with Cons.prems(2) have "p' \<le> length cs" by simp
    from Cons.IH [OF rec this] Suc show ?thesis by simp
  qed
qed

lemma str_in_iff: "str_in needle hay \<longleftrightarrow> (\<exists>p \<le> length hay. prefix needle (drop p hay))"
proof
  assume "str_in needle hay"
  then obtain j where "find_from 0 needle hay = Some j"
    by (auto simp: str_in_def str_find_def)
  from find_from_Some [OF this] show "\<exists>p \<le> length hay. prefix needle (drop p hay)"
    by auto
next
  assume "\<exists>p \<le> length hay. prefix needle (drop p hay)"
  then show "str_in needle hay"
    using find_from_None [of 0 needle hay]
    by (auto simp: str_in_def str_find_def)
qed

lemma str_in_Nil: "str_in [] hay"
  by (auto simp: str_in_iff)

lemma str_in_middle: "str_in needle (a @ needle @ b)"
  unfolding str_in_iff by (rule exI [of _ "length a"]) simp

lemma lower_append: "lower (a @ b) = lower a @ lower b"
  by (simp add: lower_def)

lemma strip_blank: "list_all is_space s \<Longrightarrow> strip s = []"
  by (auto simp: strip_def list_all_iff dest: set_dropWhileD)

lemma lexical_score_bounds: "0 \<le> lexical_score text query \<and> lexical_score text query \<le> 1"
  by (simp add: lexical_score_def Let_def)

lemma lexical_score_blank: "list_all is_space query \<Longrightarrow> lexical_score text query = 0"
  by (simp add: lexical_score_def strip_blank lower_def)

lemma sort_desc_single: "sort_desc f [x] = [x]"
  by (simp add: sort_desc_def)

text \<open>
  C4. The lexical scorer of the file-backed store has no guard for a blank query: the
  empty query, and the query of one space, score 0.8 on every document (the empty string
  and the space that joins content and metadata occur in every searchable text), where
  the claim, and \<open>_lexical_score\<close> in src/main.py, give 0.
\<close>

theorem lexical_search_blank_query:
  "lexical_search json_dumps [] [doc] = [(doc, 0.8)]
   \<and> lexical_search json_dumps '' '' [doc] = [(doc, 0.8)]
   \<and> lexical_score (searchable_text json_dumps doc) [] = 0
   \<and> lexical_score (searchable_text json_dumps doc) '' '' = 0"
proof -
  have sp: "lower '' '' = '' ''" by (simp add: lower_def is_upper_def)
  have "str_in '' '' (lower (content doc) @ '' '' @ lower (json_dumps (metadata doc)))"
    by (rule str_in_middle)
  then have in_sp: "str_in '' '' (searchable_text json_dumps doc)"
    unfolding searchable_text_def lower_append sp .
  have ws: "split_ws '' '' = []" by (simp add: split_ws_def is_space_def)
  have e: "lexical_doc_score [] (searchable_text json_dumps doc) = 0.8"
    by (simp add: lexical_doc_score_def str_in_Nil split_ws_def)
  have s: "lexical_doc_score '' '' (searchable_text json_dumps doc) = 0.8"
    by (simp add: lexical_doc_score_def in_sp ws)
  have b: "list_all is_space '' ''" by (simp add: is_space_def)
  show ?thesis
    using lexical_score_blank [OF b, of "searchable_text json_dumps doc"]
      lexical_score_blank [of "[]" "searchable_text json_dumps doc"]
    by (simp add: lexical_search_def sort_desc_single e s sp lower_def)
qed




lemma lower_Nil_iff: "lower s = [] \<longleftrightarrow> s = []"
  by (simp add: lower_def)















lemmas snippet_eval = make_snippet_def locate_def str_find_def lower_def is_upper_def strip_def
  is_space_def re_sub_def ci_prefix_def split_ws_def leading_def Let_def





section \<open>Properties of the multi-query aggregation\<close>

lemma search_loop_Inr:
  "search_loop lib db_execute per_query top_k qs by_id = Inr m \<Longrightarrow>
     \<exists>chunks. map (sub_query_results lib db_execute per_query top_k) qs = map Inr chunks
            \<and> m = fold merge_result (concat chunks) by_id"
proof (induction qs arbitrary: by_id)
  case Nil
  then show ?case by simp
next
  case (Cons q qs)
  from Cons.prems obtain chunk where
    chunk: "sub_query_results lib db_execute per_query top_k q = Inr chunk"
    and rest: "search_loop lib db_execute per_query top_k qs (fold merge_result chunk by_id) = Inr m"
    by (auto split: sum.splits)
  from Cons.IH [OF rest] obtain chunks where
    chunks: "map (sub_query_results lib db_execute per_query top_k) qs = map Inr chunks"
    and m: "m = fold merge_result (concat chunks) (fold merge_result chunk by_id)"
    by blast
  have "map (sub_query_results lib db_execute per_query top_k) (q # qs) = map Inr (chunk # chunks)"
    using chunk chunks by simp
  moreover have "m = fold merge_result (concat (chunk # chunks)) by_id"
    using m by simp
  ultimately show ?case by blast
qed

text \<open>
  The invariant of the merge: the keys are distinct, each entry is a result seen so far,
  stored under its own id, with the highest score seen for that id, and every id seen has
  an entry.
\<close>

lemma merge_result_invariant:
  assumes dist: "distinct (map fst m)"
    and best: "\<forall>k r. map_of m k = Some r \<longrightarrow>
        law_id r = k \<and> r \<in> S \<and> (\<forall>r' \<in> S. law_id r' = k \<longrightarrow> score_or_zero r' \<le> score_or_zero r)"
    and all: "\<forall>r' \<in> S. map_of m (law_id r') \<noteq> None"
  shows "distinct (map fst (merge_result x m))"
    and "\<forall>k r. map_of (merge_result x m) k = Some r \<longrightarrow>
        law_id r = k \<and> r \<in> insert x S
        \<and> (\<forall>r' \<in> insert x S. law_id r' = k \<longrightarrow> score_or_zero r' \<le> score_or_zero r)"
    and "\<forall>r' \<in> insert x S. map_of (merge_result x m) (law_id r') \<noteq> None"
proof -
  show "distinct (map fst (merge_result x m))"
    using dist by (simp add: merge_result_def distinct_update split: option.splits)
  show "\<forall>r' \<in> insert x S. map_of (merge_result x m) (law_id r') \<noteq> None"
    using all by (auto simp: merge_result_def update_conv' split: option.splits)
  show "\<forall>k r. map_of (merge_result x m) k = Some r \<longrightarrow>
        law_id r = k \<and> r \<in> insert x S
        \<and> (\<forall>r' \<in> insert x S. law_id r' = k \<longrightarrow> score_or_zero r' \<le> score_or_zero r)"
  proof (cases "map_of m (law_id x)")
    case None
    then have new: "\<forall>r' \<in> S. law_id r' \<noteq> law_id x"
      using all by auto
    have mo: "map_of (merge_result x m) = (map_of m)(law_id x \<mapsto> x)"
      using None by (simp add: merge_result_def update_conv')
    show ?thesis
      unfolding mo using best new by (auto split: if_splits)
  next
    case (Some prev)
    from best Some have prev: "law_id prev = law_id x" "prev \<in> S"
      and top: "\<forall>r' \<in> S. law_id r' = law_id x \<longrightarrow> score_or_zero r' \<le> score_or_zero prev"
      by blast+
    show ?thesis
    proof (cases "score_or_zero x > score_or_zero prev")
      case True
      have mo: "map_of (merge_result x m) = (map_of m)(law_id x \<mapsto> x)"
        using Some True by (simp add: merge_result_def update_conv')
      have "score_or_zero r' \<le> score_or_zero x" if "r' \<in> S" "law_id r' = law_id x" for r'
        using top that True by fastforce
      then show ?thesis
        unfolding mo using best by (auto split: if_splits)
    next
      case False
      have mo: "merge_result x m = m"
        using Some False by (simp add: merge_result_def)
      have "score_or_zero x \<le> score_or_zero r" if "map_of m (law_id x) = Some r" for r
        using that Some False by simp
      then show ?thesis
        unfolding mo using best by auto
    qed
  qed
qed

lemma merged_values:
  assumes dist: "distinct (map fst m)"
    and ids: "\<forall>k r. map_of m k = Some r \<longrightarrow> law_id r = k"
  shows "distinct (map law_id (map snd m))"
    and "r \<in> set (map snd m) \<Longrightarrow> map_of m (law_id r) = Some r"
proof -
  have own: "law_id (snd p) = fst p \<and> map_of m (fst p) = Some (snd p)" if "p \<in> set m" for p
  proof -
    from that have "(fst p, snd p) \<in> set m" by simp
    with dist have "map_of m (fst p) = Some (snd p)" by (rule map_of_is_SomeI)
    with ids show ?thesis by blast
  qed
  then have "map (\<lambda>p. law_id (snd p)) m = map fst m" by (intro map_cong) simp_all
  then have "map law_id (map snd m) = map fst m" by (simp add: comp_def)
  with dist show "distinct (map law_id (map snd m))" by (simp only:)
  show "map_of m (law_id r) = Some r" if "r \<in> set (map snd m)"
    using that own by auto
qed

lemma distinct_ids_ranked:
  assumes "distinct (map f xs)"
  shows "distinct (map f (slice_to k (sort_key g xs)))"
proof -
  from assms have "distinct (map f (sort_key g xs))"
    by (simp add: distinct_map)
  then have "distinct (take n (map f (sort_key g xs)))" for n
    by (rule distinct_take)
  then show ?thesis by (simp add: slice_to_def take_map)
qed

lemma set_slice_to: "set (slice_to k xs) \<subseteq> set xs"
  by (simp add: slice_to_def set_take_subset)

lemma length_search_law:
  assumes "0 \<le> top_k"
  shows "int (length (search_law fetch query top_k)) \<le> top_k"
proof (cases "split_query_list query = []")
  case True
  with assms show ?thesis by (simp add: search_law_def)
next
  case False
  then show ?thesis
    unfolding search_law_def Let_def by (simp only: if_False) (rule length_slice_to [OF assms])
qed

lemma fold_merge_result_invariant:
  assumes "distinct (map fst m)"
    and "\<forall>k r. map_of m k = Some r \<longrightarrow>
        law_id r = k \<and> r \<in> S \<and> (\<forall>r' \<in> S. law_id r' = k \<longrightarrow> score_or_zero r' \<le> score_or_zero r)"
    and "\<forall>r' \<in> S. map_of m (law_id r') \<noteq> None"
  shows "distinct (map fst (fold merge_result xs m))
       \<and> (\<forall>k r. map_of (fold merge_result xs m) k = Some r \<longrightarrow>
            law_id r = k \<and> r \<in> S \<union> set xs
            \<and> (\<forall>r' \<in> S \<union> set xs. law_id r' = k \<longrightarrow> score_or_zero r' \<le> score_or_zero r))
       \<and> (\<forall>r' \<in> S \<union> set xs. map_of (fold merge_result xs m) (law_id r') \<noteq> None)"
  using assms
proof (induction xs arbitrary: m S)
  case Nil
  then show ?case by simp
next
  case (Cons x xs)
  note step = merge_result_invariant [OF Cons.prems, of x]
  have eq: "fold merge_result (x # xs) m = fold merge_result xs (merge_result x m)" by simp
  have un: "S \<union> set (x # xs) = insert x S \<union> set xs" by auto
  show ?case unfolding eq un by (rule Cons.IH [OF step])
qed

lemma merged_ids:
  assumes ids: "\<forall>k r. map_of m k = Some r \<longrightarrow> law_id r = k \<and> r \<in> S"
    and all: "\<forall>r' \<in> S. map_of m (law_id r') \<noteq> None"
  shows "set (map fst m) = law_id ` S"
proof -
  have "fst ` set m = dom (map_of m)" by (simp add: dom_map_of_conv_image_fst)
  also have "\<dots> = law_id ` S"
  proof (intro equalityI subsetI)
    fix k assume "k \<in> dom (map_of m)"
    then obtain r where "map_of m k = Some r" by blast
    with ids have "law_id r = k" "r \<in> S" by blast+
    then show "k \<in> law_id ` S" by blast
  next
    fix k assume "k \<in> law_id ` S"
    then obtain r' where "r' \<in> S" "k = law_id r'" by blast
    with all show "k \<in> dom (map_of m)" by blast
  qed
  finally show ?thesis by simp
qed

lemma occurrences_distinct:
  "distinct (map f xs) \<Longrightarrow>
     length (filter (\<lambda>x. f x = i) xs) = (if i \<in> f ` set xs then 1 else 0)"
  by (induction xs) auto

lemma map_slice_to: "map f (slice_to k xs) = slice_to k (map f xs)"
  by (simp add: slice_to_def take_map)

lemma search_law_records:
  "map snd (search_law fetch query top_k) =
     slice_to top_k
       (concat (map (\<lambda>q. case fetch q (per_query_of top_k (split_query_list query)) of
                            Inl e \<Rightarrow> [] | Inr result \<Rightarrow> result)
                  (split_query_list query)))"
proof -
  have tagged: "map snd (case x of Inl e \<Rightarrow> [] | Inr result \<Rightarrow> map (Pair q) result)
      = (case x of Inl e \<Rightarrow> [] | Inr result \<Rightarrow> result)"
    for x :: "exn + collector_item list" and q :: string
    by (cases x) (simp_all add: comp_def)
  show ?thesis
  proof (cases "split_query_list query = []")
    case True
    then show ?thesis by (simp add: search_law_def slice_to_def)
  next
    case False
    then show ?thesis
      by (simp add: search_law_def Let_def map_slice_to map_concat comp_def tagged)
  qed
qed

text \<open>
  C3 (amended). In the aggregation over the persistent store, \<open>_db_search_laws\<close>, the
  merged output holds \<open>min(top_k, n)\<close> results, where \<open>n\<close> is the number of distinct law
  ids in the sub-query results (each already cut to \<open>per_query\<close>), and no id twice.  An id
  that several sub-query results contain is therefore in the output exactly once unless
  the final cut to \<open>top_k\<close> drops it, and it is never dropped when the distinct ids
  fit into \<open>top_k\<close>.  A result in the output is one of the sub-query results and carries
  the highest score that any of them has for its id.  The collector's \<open>search_law\<close> does
  not merge by id: its records are the concatenation of the sub-query results, cut to
  \<open>top_k\<close>.  Both outputs have at most \<open>top_k\<close> elements (for \<open>top_k\<close> not negative).
\<close>

theorem db_search_laws_merge:
  assumes ok: "db_search_laws lib db_execute query top_k = Inr res"
    and k: "0 \<le> top_k"
  shows "distinct (map law_id res)
       \<and> int (length res) \<le> top_k
       \<and> (\<exists>chunks.
            map (sub_query_results lib db_execute
                   (per_query_of top_k (split_query_list query)) top_k)
              (split_query_list query) = map Inr chunks
            \<and> int (length res) = min top_k (int (card (law_id ` set (concat chunks))))
            \<and> (\<forall>i. length (filter (\<lambda>r. law_id r = i) res) \<le> 1)
            \<and> (int (card (law_id ` set (concat chunks))) \<le> top_k \<longrightarrow>
                 (\<forall>r' \<in> set (concat chunks).
                    length (filter (\<lambda>r. law_id r = law_id r') res) = 1))
            \<and> (\<forall>r \<in> set res. r \<in> set (concat chunks)
                  \<and> (\<forall>r' \<in> set (concat chunks).
                        law_id r' = law_id r \<longrightarrow> score_or_zero r' \<le> score_or_zero r)))
       \<and> int (length (search_law fetch query top_k)) \<le> top_k
       \<and> map snd (search_law fetch query top_k) =
           slice_to top_k
             (concat (map (\<lambda>q. case fetch q (per_query_of top_k (split_query_list query)) of
                                  Inl e \<Rightarrow> [] | Inr result \<Rightarrow> result)
                        (split_query_list query)))"
proof -
  let ?qs = "split_query_list query"
  let ?pq = "per_query_of top_k ?qs"
  have "\<exists>m. search_loop lib db_execute ?pq top_k ?qs [] = Inr m
          \<and> res = slice_to top_k (sort_key rank_key (map snd m))"
  proof (cases "?qs = []")
    case True
    with ok have "res = []" by (simp add: db_search_laws_def)
    with True show ?thesis by (simp add: slice_to_def)
  next
    case False
    with ok show ?thesis
      by (auto simp: db_search_laws_def Let_def split: sum.splits)
  qed
  then obtain m where
    loop: "search_loop lib db_execute ?pq top_k ?qs [] = Inr m"
    and res: "res = slice_to top_k (sort_key rank_key (map snd m))"
    by blast
  from search_loop_Inr [OF loop] obtain chunks where
    chunks: "map (sub_query_results lib db_execute ?pq top_k) ?qs = map Inr chunks"
    and m: "m = fold merge_result (concat chunks) []" by blast
  let ?S = "set (concat chunks)"
  have inv: "distinct (map fst m)
       \<and> (\<forall>k r. map_of m k = Some r \<longrightarrow>
            law_id r = k \<and> r \<in> {} \<union> ?S
            \<and> (\<forall>r' \<in> {} \<union> ?S. law_id r' = k \<longrightarrow> score_or_zero r' \<le> score_or_zero r))
       \<and> (\<forall>r' \<in> {} \<union> ?S. map_of m (law_id r') \<noteq> None)"
    unfolding m by (rule fold_merge_result_invariant) simp_all
  then have dist: "distinct (map fst m)"
    and ids: "\<forall>k r. map_of m k = Some r \<longrightarrow> law_id r = k"
    and seen: "\<forall>k r. map_of m k = Some r \<longrightarrow> law_id r = k \<and> r \<in> ?S"
    and best: "\<forall>k r. map_of m k = Some r \<longrightarrow> r \<in> ?S
            \<and> (\<forall>r' \<in> ?S. law_id r' = k \<longrightarrow> score_or_zero r' \<le> score_or_zero r)"
    and every: "\<forall>r' \<in> ?S. map_of m (law_id r') \<noteq> None"
    unfolding Un_empty_left by blast+
  have keys: "set (map fst m) = law_id ` ?S"
    by (rule merged_ids [OF seen every])
  have own_ids: "map law_id (map snd m) = map fst m"
  proof -
    have "law_id (snd p) = fst p" if "p \<in> set m" for p
    proof -
      from that have "(fst p, snd p) \<in> set m" by simp
      with dist have "map_of m (fst p) = Some (snd p)" by (rule map_of_is_SomeI)
      with ids show ?thesis by blast
    qed
    then have "map (\<lambda>p. law_id (snd p)) m = map fst m" by (intro map_cong) simp_all
    then show ?thesis by (simp add: comp_def)
  qed
  have size: "length m = card (law_id ` ?S)"
  proof -
    from dist have "card (set (map fst m)) = length (map fst m)" by (rule distinct_card)
    with keys show ?thesis by simp
  qed
  have d: "distinct (map law_id res)"
    unfolding res by (rule distinct_ids_ranked) (rule merged_values(1) [OF dist ids])
  have l: "int (length res) \<le> top_k"
    unfolding res by (rule length_slice_to [OF k])
  have len: "int (length res) = min top_k (int (card (law_id ` ?S)))"
  proof -
    have "length res = min (nat top_k) (length m)"
      unfolding res using k by (simp add: slice_to_def)
    with k size show ?thesis by (simp add: min_def) arith
  qed
  have most: "length (filter (\<lambda>r. law_id r = i) res) \<le> 1" for i
    by (simp add: occurrences_distinct [OF d])
  have once: "length (filter (\<lambda>r. law_id r = law_id r') res) = 1"
    if fits: "int (card (law_id ` ?S)) \<le> top_k" and r': "r' \<in> ?S" for r'
  proof -
    from fits size k have "res = sort_key rank_key (map snd m)"
      unfolding res by (simp add: slice_to_def)
    then have "set res = set (map snd m)" by simp
    then have "set (map law_id res) = set (map law_id (map snd m))"
      by (simp only: set_map)
    also have "\<dots> = law_id ` ?S" by (simp only: own_ids keys)
    finally have "law_id ` set res = law_id ` ?S" by (simp only: set_map)
    with r' have "law_id r' \<in> law_id ` set res" by blast
    then show ?thesis by (simp add: occurrences_distinct [OF d])
  qed
  have b: "r \<in> ?S \<and> (\<forall>r' \<in> ?S. law_id r' = law_id r \<longrightarrow> score_or_zero r' \<le> score_or_zero r)"
    if "r \<in> set res" for r
  proof -
    from that have "r \<in> set (map snd m)"
      unfolding res using set_slice_to [of top_k "sort_key rank_key (map snd m)"] by auto
    then have "map_of m (law_id r) = Some r"
      by (rule merged_values(2) [OF dist ids])
    with best show ?thesis by blast
  qed
  have merged: "\<exists>chunks.
            map (sub_query_results lib db_execute ?pq top_k) ?qs = map Inr chunks
            \<and> int (length res) = min top_k (int (card (law_id ` set (concat chunks))))
            \<and> (\<forall>i. length (filter (\<lambda>r. law_id r = i) res) \<le> 1)
            \<and> (int (card (law_id ` set (concat chunks))) \<le> top_k \<longrightarrow>
                 (\<forall>r' \<in> set (concat chunks).
                    length (filter (\<lambda>r. law_id r = law_id r') res) = 1))
            \<and> (\<forall>r \<in> set res. r \<in> set (concat chunks)
                  \<and> (\<forall>r' \<in> set (concat chunks).
                        law_id r' = law_id r \<longrightarrow> score_or_zero r' \<le> score_or_zero r))"
    using chunks len most once b by blast
  show ?thesis
    by (intro conjI d l merged length_search_law [OF k] search_law_records)
qed

lemmas aggregation_eval = db_search_laws_def split_query_list_def per_query_of_def
  candidate_limit_def sub_query_results_def law_row_to_search_result_def searchable_def
  or_empty_def lexical_score_def str_in_def score_or_zero_def rank_key_def merge_result_def
  slice_to_def search_law_def snippet_eval

theorem db_search_laws_merge_witness:
  "(let X = \<lparr> row_law_id = ''1'', row_law_name_kr = ''tax law act'', row_law_abbr = None,
              row_department = None, row_law_type = None, row_status = None,
              row_enforce_date = None, row_promulgate_date = None, row_detail_link = None \<rparr>;
        db = (\<lambda>q n. Inr [X]);
        lib = (\<lambda>target repl s. Re_error)
    in map_sum id (map (\<lambda>r. (law_id r, score r))) (sub_query_results lib db 5 10 ''tax act'')
         = Inr [(''1'', Some (1 / 5))]
     \<and> map_sum id (map (\<lambda>r. (law_id r, score r))) (sub_query_results lib db 5 10 ''act'')
         = Inr [(''1'', Some 1)]
     \<and> map_sum id (map (\<lambda>r. (law_id r, score r))) (db_search_laws lib db ''tax act,act'' 10)
         = Inr [(''1'', Some 1)]
     \<and> (\<exists>res. db_search_laws lib db ''tax act,act'' 10 = Inr res
            \<and> distinct (map law_id res) \<and> int (length res) \<le> 10))"
proof -
  let ?X = "\<lparr> row_law_id = ''1'', row_law_name_kr = ''tax law act'', row_law_abbr = None,
              row_department = None, row_law_type = None, row_status = None,
              row_enforce_date = None, row_promulgate_date = None, row_detail_link = None \<rparr>"
  let ?db = "\<lambda>(q::string) (n::int). (Inr [?X] :: exn + Law list)"
  let ?lib = "\<lambda>(target::string) (repl::string) (s::string). Re_error"
  let ?R = "\<lparr> law_id = ''1'', law_name_kr = ''tax law act'', law_abbr = None,
              department = None, law_type = None, status = None,
              enforce_date = None, promulgate_date = None, score = Some 1,
              snippet = Some ''tax law <em>act</em> 1'', detail_link = None \<rparr>"
  have ok: "db_search_laws ?lib ?db ''tax act,act'' 10 = Inr [?R]"
    by (simp add: aggregation_eval)
  have k: "(0::int) \<le> 10" by simp
  have s1: "map_sum id (map (\<lambda>r. (law_id r, score r))) (sub_query_results ?lib ?db 5 10 ''tax act'')
         = Inr [(''1'', Some (1 / 5))]"
    by (simp add: aggregation_eval)
  have s2: "map_sum id (map (\<lambda>r. (law_id r, score r))) (sub_query_results ?lib ?db 5 10 ''act'')
         = Inr [(''1'', Some 1)]"
    by (simp add: aggregation_eval)
  from db_search_laws_merge [OF ok k]
  have "distinct (map law_id [?R]) \<and> int (length [?R]) \<le> 10" by blast
  with ok have ex: "\<exists>res. db_search_laws ?lib ?db ''tax act,act'' 10 = Inr res
            \<and> distinct (map law_id res) \<and> int (length res) \<le> 10" by blast
  have fin: "map_sum id (map (\<lambda>r. (law_id r, score r))) (db_search_laws ?lib ?db ''tax act,act'' 10)
         = Inr [(''1'', Some 1)]"
    unfolding ok by simp
  show ?thesis
    unfolding Let_def using s1 s2 fin ex by blast
qed

text \<open>
  C3 as stated fails in both aggregations.  In \<open>_db_search_laws\<close> with \<open>top_k = 1\<close> and
  three terms, the law with id 1 is the result of two sub-queries and the cut to
  \<open>top_k\<close> leaves it out of the output: it occurs there not once but never.  In the
  collector's \<open>search_law\<close> a record returned for two terms occurs twice in the output.
\<close>

theorem aggregation_exactly_once_counterexample:
  "(let X = \<lparr> row_law_id = ''1'', row_law_name_kr = ''tax law act'', row_law_abbr = None,
              row_department = None, row_law_type = None, row_status = None,
              row_enforce_date = None, row_promulgate_date = None, row_detail_link = None \<rparr>;
        Y = \<lparr> row_law_id = ''2'', row_law_name_kr = ''civil'', row_law_abbr = None,
              row_department = None, row_law_type = None, row_status = None,
              row_enforce_date = None, row_promulgate_date = None, row_detail_link = None \<rparr>;
        db = (\<lambda>q n. if q = ''civil'' then Inr [Y] else Inr [X]);
        lib = (\<lambda>target repl s. Re_error);
        item = \<lparr> item_law_id = Some ''1'', item_law_name_kr = Some ''tax law act'',
                 item_law_abbr = None, item_department = None, item_status = None,
                 item_enforce_date = None, item_promulgate_date = None,
                 item_detail_link = None \<rparr>
    in per_query_of 1 (split_query_list ''tax,act,civil'') = 1
     \<and> map_sum id (map law_id) (sub_query_results lib db 1 1 ''tax'') = Inr [''1'']
     \<and> map_sum id (map law_id) (sub_query_results lib db 1 1 ''act'') = Inr [''1'']
     \<and> map_sum id (map law_id) (db_search_laws lib db ''tax,act,civil'' 1) = Inr [''2'']
     \<and> map (\<lambda>p. (fst p, item_law_id (snd p))) (search_law (\<lambda>q n. Inr [item]) ''tax,act'' 10)
         = [(''tax'', Some ''1''), (''act'', Some ''1'')])"
  by (simp add: aggregation_eval)

end
